theory Spec2Isabelle
  imports Complex_Main "HOL-Library.Multiset"
begin

section \<open>Text primitives of the Python runtime\<close>

text \<open>
  A Python \<open>str\<close> is modelled as a \<open>string\<close> whose characters are the code points
  below 256. On that range \<open>str.isspace\<close> (which is also what \<open>\s\<close> matches in a
  \<open>str\<close> pattern) holds for the code points 9 to 13, 28 to 32, 133 and 160, \<open>\d\<close>
  matches the ten ASCII digits only, and \<open>str.lower\<close> moves \<open>A\<close> to \<open>Z\<close> and the
  accented capitals 192 to 222 (without 215) up by 32.
\<close>

definition isspace :: "char \<Rightarrow> bool" where
  "isspace c =
     (let n = (of_char c :: nat)
      in (9 \<le> n \<and> n \<le> 13) \<or> (28 \<le> n \<and> n \<le> 32) \<or> n = 133 \<or> n = 160)"

text \<open>A character class \<open>[lo-hi]\<close>; \<open>\d\<close> is \<open>[0-9]\<close> on this range of code points.\<close>

definition in_class :: "char \<Rightarrow> char \<Rightarrow> char \<Rightarrow> bool" where
  "in_class lo hi c = ((of_char lo :: nat) \<le> of_char c \<and> (of_char c :: nat) \<le> of_char hi)"

definition isdigit :: "char \<Rightarrow> bool" where
  "isdigit c = in_class (CHR ''0'') (CHR ''9'') c"

definition lower_ch :: "char \<Rightarrow> char" where
  "lower_ch c =
     (let n = (of_char c :: nat)
      in if (65 \<le> n \<and> n \<le> 90) \<or> (192 \<le> n \<and> n \<le> 222 \<and> n \<noteq> 215)
         then char_of (n + 32) else c)"

text \<open>\<open>str.upper\<close>, used by the source only on a group that matched \<open>YES|NO\<close>,
  so only the ASCII letters matter.\<close>

definition upper_ch :: "char \<Rightarrow> char" where
  "upper_ch c =
     (let n = (of_char c :: nat)
      in if 97 \<le> n \<and> n \<le> 122 then char_of (n - 32) else c)"

definition py_lower :: "string \<Rightarrow> string" where
  "py_lower s = map lower_ch s"

definition py_upper :: "string \<Rightarrow> string" where
  "py_upper s = map upper_ch s"

text \<open>\<open>s.strip()\<close>: whitespace removed at both ends.\<close>

definition strip :: "string \<Rightarrow> string" where
  "strip s = rev (dropWhile isspace (rev (dropWhile isspace s)))"

text \<open>\<open>s.startswith(p)\<close>.\<close>

definition startswith :: "string \<Rightarrow> string \<Rightarrow> bool" where
  "startswith s p = (take (length p) s = p)"

text \<open>\<open>kw in s\<close> on strings: \<open>kw\<close> occurs in \<open>s\<close> as a contiguous substring.\<close>

fun contains :: "string \<Rightarrow> string \<Rightarrow> bool" where
  "contains [] kw = (kw = [])"
| "contains (c # cs) kw = (startswith (c # cs) kw \<or> contains cs kw)"

text \<open>\<open>int(ds)\<close> and \<open>float(ds)\<close> on a run of ASCII digits, most significant first.\<close>

definition digit_val :: "char \<Rightarrow> int" where
  "digit_val c = int (of_char c) - 48"

definition int_of_digits :: "string \<Rightarrow> int" where
  "int_of_digits ds = foldl (\<lambda>acc c. 10 * acc + digit_val c) 0 ds"

section \<open>The regular expressions of the source\<close>

text \<open>
  All patterns are used with \<open>re.search\<close> and \<open>re.IGNORECASE\<close>: the match is the one
  at the leftmost position of the text where the pattern matches. A literal of the
  pattern matches a character of the text when both are the same letter in either case.
\<close>

text \<open>
  A character \<open>c\<close> of the text against a literal character \<open>p\<close> of a pattern under
  \<open>re.IGNORECASE\<close>. This is the relation of the regular expression engine, not a
  comparison of \<open>str.lower\<close> forms; for the ASCII characters of the patterns here and a
  text of code points below 256 it holds exactly when both are the same letter in either
  case, or the same character.
\<close>

definition matches_ci :: "char \<Rightarrow> char \<Rightarrow> bool" where
  "matches_ci c p = (lower_ch c = lower_ch p)"

text \<open>A literal \<open>p\<close> of a pattern at the start of \<open>s\<close>: what is left of \<open>s\<close> after it.\<close>

fun literal_ci :: "string \<Rightarrow> string \<Rightarrow> string option" where
  "literal_ci [] s = Some s"
| "literal_ci (p # ps) [] = None"
| "literal_ci (p # ps) (c # cs) = (if matches_ci c p then literal_ci ps cs else None)"

definition starts_ci :: "string \<Rightarrow> string \<Rightarrow> bool" where
  "starts_ci s p = (literal_ci p s \<noteq> None)"

text \<open>\<open>re.search\<close>: the matcher \<open>m\<close> is tried at every position, from the left, the
  end of the text included.\<close>

fun re_search :: "(string \<Rightarrow> 'a option) \<Rightarrow> string \<Rightarrow> 'a option" where
  "re_search m [] = m []"
| "re_search m (c # cs) = (case m (c # cs) of Some g \<Rightarrow> Some g | None \<Rightarrow> re_search m cs)"

text \<open>
  \<open>\s*\<close> followed by the rest \<open>k\<close> of a pattern. The star is greedy: it takes a
  whitespace character and goes on, and only when the rest of the pattern then fails
  does it give the character back and try the rest of the pattern here.
\<close>

fun ws_star :: "(string \<Rightarrow> 'a option) \<Rightarrow> string \<Rightarrow> 'a option" where
  "ws_star k [] = k []"
| "ws_star k (c # cs) =
     (if isspace c
      then (case ws_star k cs of Some g \<Rightarrow> Some g | None \<Rightarrow> k (c # cs))
      else k (c # cs))"

text \<open>
  A lazy \<open>(.+?)\<close> under \<open>re.DOTALL\<close> followed by a zero-width test \<open>stop\<close>: at least one
  character, of any kind, and then as few more as possible until \<open>stop\<close> holds of what
  is left.
\<close>

fun lazy_until :: "(string \<Rightarrow> bool) \<Rightarrow> string \<Rightarrow> string option" where
  "lazy_until stop [] = None"
| "lazy_until stop (c # cs) =
     (if stop cs then Some [c] else map_option ((#) c) (lazy_until stop cs))"

text \<open>\<open>$\<close> without \<open>re.MULTILINE\<close>: the end of the text, or just before a final newline.\<close>

definition at_end :: "string \<Rightarrow> bool" where
  "at_end t = (t = [] \<or> t = [CHR 0x0A])"

text \<open>\<open>(YES|NO)\<close>: the first alternative that matches; the result is the group as it
  stands in the text.\<close>

definition yes_or_no :: "string \<Rightarrow> string option" where
  "yes_or_no r =
     (if starts_ci r ''YES'' then Some (take 3 r)
      else if starts_ci r ''NO'' then Some (take 2 r)
      else None)"

text \<open>\<open>CLASSIFICATION:\s*(YES|NO)\<close> at the start of \<open>s\<close>; the result is group 1.\<close>

definition match_classification :: "string \<Rightarrow> string option" where
  "match_classification s =
     (case literal_ci ''CLASSIFICATION:'' s of
        None \<Rightarrow> None
      | Some r \<Rightarrow> ws_star yes_or_no r)"

text \<open>
  \<open>([1-5](?:\.[0-9])?)\<close>: a digit from 1 to 5 and, when a dot and a digit follow, these
  two as well; the result is \<open>float\<close> of the group, a number with at most one decimal,
  kept as a rational.
\<close>

fun score_group :: "string \<Rightarrow> rat option" where
  "score_group [] = None"
| "score_group (d # r) =
     (if in_class (CHR ''1'') (CHR ''5'') d
      then (case r of
              p # f # _ \<Rightarrow>
                if p = CHR ''.'' \<and> isdigit f
                then Some (of_int (digit_val d) + of_int (digit_val f) / 10)
                else Some (of_int (digit_val d))
            | _ \<Rightarrow> Some (of_int (digit_val d)))
      else None)"

text \<open>\<open>SCORE:\s*([1-5](?:\.[0-9])?)\<close> at the start of \<open>s\<close>.\<close>

definition match_score :: "string \<Rightarrow> rat option" where
  "match_score s =
     (case literal_ci ''SCORE:'' s of
        None \<Rightarrow> None
      | Some r \<Rightarrow> ws_star score_group r)"

text \<open>\<open>(\d+)\<close>: the whole run of digits, at least one; the result is the group.\<close>

definition digits_group :: "string \<Rightarrow> string option" where
  "digits_group r =
     (let ds = takeWhile isdigit r
      in if ds = [] then None else Some ds)"

text \<open>
  \<open>int(ds)\<close> on a run of digits. Python's integers are unbounded, but the conversion
  from a string is not total: CPython (from 3.11 on, and the security releases of 3.7 to
  3.10) raises \<open>ValueError\<close> when the string has more than
  \<open>sys.int_info.default_max_str_digits\<close> digits, leading zeros included.
\<close>

datatype error = ValueError

definition int_max_str_digits :: nat where
  "int_max_str_digits = 4300"

definition py_int :: "string \<Rightarrow> error + int" where
  "py_int ds =
     (if length ds > int_max_str_digits then Inl ValueError else Inr (int_of_digits ds))"

text \<open>\<open>Label:\s*(\d+)\<close> at the start of \<open>s\<close>, the label written with its colon; the
  result is group 1.\<close>

definition match_rating :: "string \<Rightarrow> string \<Rightarrow> string option" where
  "match_rating label s =
     (case literal_ci label s of
        None \<Rightarrow> None
      | Some r \<Rightarrow> ws_star digits_group r)"

text \<open>\<open>Strengths:\s*(.+?)(?=Topics:|$)\<close> and \<open>Topics:\s*(.+?)$\<close>, both with
  \<open>re.DOTALL\<close>; the result is group 1.\<close>

definition match_strengths :: "string \<Rightarrow> string option" where
  "match_strengths s =
     (case literal_ci ''Strengths:'' s of
        None \<Rightarrow> None
      | Some r \<Rightarrow> ws_star (lazy_until (\<lambda>t. starts_ci t ''Topics:'' \<or> at_end t)) r)"

definition match_topics :: "string \<Rightarrow> string option" where
  "match_topics s =
     (case literal_ci ''Topics:'' s of
        None \<Rightarrow> None
      | Some r \<Rightarrow> ws_star (lazy_until at_end) r)"

section \<open>The inference service\<close>

text \<open>
  \<open>requests.post\<close> and the decoding of its answer are outside the program. What one call
  gives is a value: either something in the \<open>try\<close> block raised before parsing began (no
  connection, a timeout, a body that is not JSON, a \<open>response\<close> field that is not a
  string), with the text of the exception, or an answer arrived with a status code and,
  when the body has one, its \<open>response\<close> field.
\<close>

datatype reply = Raised string | Http int "string option"

text \<open>
  The prompts are not modelled: the first 800 characters of an essay (classifier), its
  first 1000 characters and its file name (scorer) go into the text sent to the service
  and nowhere else, so they reach the program only through what the call gives.
\<close>

text \<open>\<open>f"HTTP {response.status_code}"\<close>: the decimal numeral of an integer.\<close>

definition digit_ch :: "nat \<Rightarrow> char" where
  "digit_ch n = char_of (48 + n)"

fun str_nat :: "nat \<Rightarrow> string" where
  "str_nat n = (if n < 10 then [digit_ch n] else str_nat (n div 10) @ [digit_ch (n mod 10)])"

declare str_nat.simps [simp del]

definition str_int :: "int \<Rightarrow> string" where
  "str_int i = (if i < 0 then CHR ''-'' # str_nat (nat (- i)) else str_nat (nat i))"

text \<open>\<open>response.json().get("response", "").strip()\<close>.\<close>

definition response_text :: "string option \<Rightarrow> string" where
  "response_text body = strip (case body of None \<Rightarrow> [] | Some t \<Rightarrow> t)"

section \<open>Classifier: \<open>ollama_classify_score\<close>\<close>

definition independence_keywords :: "string list" where
  "independence_keywords =
     [''independence day'', ''august 15'', ''15th august'', ''freedom struggle'',
      ''british rule'', ''gandhi'', ''nehru'', ''freedom fighter'', ''patriotic'',
      ''tiranga'', ''tricolor'', ''national flag'', ''red fort'', ''partition'']"

definition other_keywords :: "string list" where
  "other_keywords =
     [''social media'', ''facebook'', ''instagram'', ''environmental protection'',
      ''climate change'', ''career goals'', ''software engineer'', ''online education'',
      ''covid-19'', ''sports importance'', ''basketball'', ''cricket'', ''wings of fire'']"

text \<open>\<open>sum(1 for keyword in keywords if keyword in essay_lower)\<close>.\<close>

definition keyword_score :: "string list \<Rightarrow> string \<Rightarrow> nat" where
  "keyword_score keywords essay_lower = length (filter (contains essay_lower) keywords)"

definition independence_score :: "string \<Rightarrow> nat" where
  "independence_score essay = keyword_score independence_keywords (py_lower essay)"

definition other_score :: "string \<Rightarrow> nat" where
  "other_score essay = keyword_score other_keywords (py_lower essay)"

text \<open>The verdict read from the answer alone, before the keyword fallback.\<close>

definition parsed_classification :: "string \<Rightarrow> string" where
  "parsed_classification output =
     (case re_search match_classification output of
        Some g \<Rightarrow> if py_upper g = ''YES'' then ''Yes'' else ''No''
      | None \<Rightarrow> ''No'')"

definition classification_of :: "string \<Rightarrow> string \<Rightarrow> string" where
  "classification_of output essay =
     (if parsed_classification output = ''No''
      then (if independence_score essay > other_score essay \<and> independence_score essay \<ge> 2
            then ''Yes'' else ''No'')
      else parsed_classification output)"

definition score_of :: "string \<Rightarrow> rat" where
  "score_of output = (case re_search match_score output of Some x \<Rightarrow> x | None \<Rightarrow> 3)"

text \<open>
  The function returns the triple \<open>(classification, score, raw_response)\<close>; the first
  argument is what the one call to the service gave.
\<close>

fun ollama_classify_score :: "reply \<Rightarrow> string \<Rightarrow> string \<times> rat option \<times> string" where
  "ollama_classify_score (Raised e) essay = (''Error'', None, e)"
| "ollama_classify_score (Http status body) essay =
     (if status \<noteq> 200 then (''Error'', None, ''HTTP '' @ str_int status)
      else (let output = response_text body
            in (classification_of output essay, Some (score_of output), output)))"

section \<open>Scorer: \<open>quick_essay_analysis\<close>\<close>

text \<open>
  The dictionary \<open>analysis\<close>. The mean of the ratings is a quotient of two integers; it
  is kept as a rational, which orders and compares exactly as the floats of the source
  do on these values. Only a report that the scorer built has the key \<open>raw_output\<close>.
\<close>

record analysis =
  relevance :: int
  content :: int
  writing :: int
  original :: int
  impact :: int
  overall_score :: rat
  strengths :: string
  topics :: string
  grade :: string
  raw_output :: "string option"


text \<open>One turn of the loop over \<open>patterns\<close>: the rating appended to \<open>scores\<close>, or
  the exception that \<open>int\<close> raised.\<close>

definition rating :: "string \<Rightarrow> string \<Rightarrow> error + int" where
  "rating label output =
     (case re_search (match_rating label) output of
        Some g \<Rightarrow> (case py_int g of
                     Inl e \<Rightarrow> Inl e
                   | Inr score \<Rightarrow> Inr (min (max score 1) 10))
      | None \<Rightarrow> Inr 6)"

text \<open>The loop over \<open>patterns\<close>, in the order of the dictionary: the list \<open>scores\<close>,
  or the first exception, which ends the loop.\<close>

fun ratings :: "string list \<Rightarrow> string \<Rightarrow> error + int list" where
  "ratings [] output = Inr []"
| "ratings (label # labels) output =
     (case rating label output of
        Inl e \<Rightarrow> Inl e
      | Inr score \<Rightarrow>
          (case ratings labels output of
             Inl e \<Rightarrow> Inl e
           | Inr scores \<Rightarrow> Inr (score # scores)))"

definition rating_labels :: "string list" where
  "rating_labels = [''Relevance:'', ''Content:'', ''Writing:'', ''Original:'', ''Impact:'']"

definition assign_grade :: "rat \<Rightarrow> string" where
  "assign_grade score =
     (if score \<ge> 9 then ''A+''
      else if score \<ge> 8 then ''A''
      else if score \<ge> 7 then ''B+''
      else if score \<ge> 6 then ''B''
      else if score \<ge> 5 then ''C+''
      else ''C'')"

text \<open>The part of the \<open>try\<close> block after the answer has been read: the dictionary
  \<open>analysis\<close>, or the exception raised on the way.\<close>

definition parse_analysis :: "string \<Rightarrow> error + analysis" where
  "parse_analysis output =
     (case ratings rating_labels output of
        Inl e \<Rightarrow> Inl e
      | Inr scores \<Rightarrow>
          Inr (let overall = of_int (sum_list scores) / of_int (int (length scores))
               in \<lparr> relevance = scores ! 0, content = scores ! 1, writing = scores ! 2,
                    original = scores ! 3, impact = scores ! 4,
                    overall_score = overall,
                    strengths = (case re_search match_strengths output of
                                   Some g \<Rightarrow> strip g
                                 | None \<Rightarrow> ''Good Independence Day essay''),
                    topics = (case re_search match_topics output of
                                Some g \<Rightarrow> strip g
                              | None \<Rightarrow> ''Independence Day themes''),
                    grade = assign_grade overall,
                    raw_output = Some output \<rparr>))"

text \<open>The function returns \<open>None\<close> when the call raised, when the status is not 200,
  and when an exception was raised while the answer was parsed (\<open>except Exception\<close>).\<close>

fun quick_essay_analysis :: "reply \<Rightarrow> analysis option" where
  "quick_essay_analysis (Raised e) = None"
| "quick_essay_analysis (Http status body) =
     (if status \<noteq> 200 then None
      else (case parse_analysis (response_text body) of
              Inl e \<Rightarrow> None
            | Inr a \<Rightarrow> Some a))"

text \<open>The dictionary that \<open>process_essay_folder_with_quick_analysis\<close> puts in place
  of a failed analysis.\<close>

definition default_analysis :: analysis where
  "default_analysis =
     \<lparr> relevance = 6, content = 6, writing = 6, original = 6, impact = 6,
       overall_score = 6,
       strengths = ''Independence Day themed essay'',
       topics = ''Independence Day celebrations'',
       grade = ''B'', raw_output = None \<rparr>"

text \<open>The analysis an essay ends up with in phase 2: the one the scorer returned, or
  the default one when it returned \<open>None\<close>.\<close>

definition score_report :: "reply \<Rightarrow> analysis" where
  "score_report r = (case quick_essay_analysis r of Some a \<Rightarrow> a | None \<Rightarrow> default_analysis)"

section \<open>Ranking: \<open>sorted(..., key=..., reverse=True)\<close>\<close>

text \<open>
  Python's \<open>sorted\<close> is a stable sort, and with \<open>reverse=True\<close> it still keeps
  elements with equal keys in their original order: the list is reversed, sorted stably
  in ascending order, and reversed again.
\<close>

definition py_sorted_reverse :: "('a \<Rightarrow> rat) \<Rightarrow> 'a list \<Rightarrow> 'a list" where
  "py_sorted_reverse key xs = rev (sort_key key (rev xs))"

section \<open>One zone: \<open>process_essay_folder_with_quick_analysis\<close>\<close>

text \<open>An entry of \<open>independence_day_essays\<close>; the key \<open>content\<close> is the field
  \<open>essay_content\<close>, the name \<open>content\<close> being the rating of that name.\<close>

record essay_data =
  filename :: string
  filepath :: string
  essay_content :: string
  basic_score :: "rat option"

text \<open>The same entry once the key \<open>analysis\<close> has been set.\<close>

record scored_essay = essay_data +
  analysis :: analysis

definition with_analysis :: "essay_data \<Rightarrow> analysis \<Rightarrow> scored_essay" where
  "with_analysis e a =
     \<lparr> filename = filename e, filepath = filepath e, essay_content = essay_content e,
       basic_score = basic_score e, analysis = a \<rparr>"

text \<open>A file of the folder: its name, its path, and what opening and reading it gives,
  the text of the exception (\<open>Inl\<close>) or the content (\<open>Inr\<close>).\<close>

record essay_file =
  file_name :: string
  file_path :: string
  file_read :: "string + string"

definition read_file_content :: "string + string \<Rightarrow> string" where
  "read_file_content r =
     (case r of Inl e \<Rightarrow> ''Error reading file: '' @ e | Inr c \<Rightarrow> c)"

text \<open>
  A folder as one run meets it. The service is called once for a file in the
  classification phase and once for an essay in the analysis phase, and the file names of
  a folder are distinct, so what the service gives is a function of the file name in
  each phase.
\<close>

record folder =
  folder_exists :: bool
  ollama_connection :: bool
  essay_files :: "essay_file list"
  classify_reply :: "string \<Rightarrow> reply"
  analysis_reply :: "string \<Rightarrow> reply"
  ranking_reply :: reply

text \<open>Phase 1, one turn of the loop: the state is the pair of
  \<open>independence_day_essays\<close> and \<open>wrong_topic_essays\<close>.\<close>

definition classify_step ::
  "(string \<Rightarrow> reply) \<Rightarrow> essay_data list \<times> string list \<Rightarrow> essay_file
     \<Rightarrow> essay_data list \<times> string list" where
  "classify_step call st f =
     (let content = read_file_content (file_read f)
      in if startswith content ''Error reading file'' then st
         else (case ollama_classify_score (call (file_name f)) content of
                 (classification, score, raw_response) \<Rightarrow>
                   if classification = ''Error'' then st
                   else if py_lower classification = ''yes''
                   then (fst st @ [\<lparr> filename = file_name f, filepath = file_path f,
                                       essay_content = content, basic_score = score \<rparr>],
                         snd st)
                   else if py_lower classification = ''no''
                   then (fst st, snd st @ [file_name f])
                   else st))"

definition classification_phase ::
  "(string \<Rightarrow> reply) \<Rightarrow> essay_file list \<Rightarrow> essay_data list \<times> string list" where
  "classification_phase call files = foldl (classify_step call) ([], []) files"

text \<open>What one file adds to the two lists.\<close>

definition classified :: "(string \<Rightarrow> reply) \<Rightarrow> essay_file \<Rightarrow> essay_data list \<times> string list" where
  "classified call f = classify_step call ([], []) f"

text \<open>Phase 2, one turn of the loop: the state is \<open>successful_analyses\<close>.\<close>

definition analysis_step ::
  "(string \<Rightarrow> reply) \<Rightarrow> scored_essay list \<Rightarrow> essay_data \<Rightarrow> scored_essay list" where
  "analysis_step call acc e =
     (case quick_essay_analysis (call (filename e)) of
        Some a \<Rightarrow> acc @ [with_analysis e a]
      | None \<Rightarrow> acc @ [with_analysis e default_analysis])"

definition analysis_phase ::
  "(string \<Rightarrow> reply) \<Rightarrow> essay_data list \<Rightarrow> scored_essay list" where
  "analysis_phase call essays = foldl (analysis_step call) [] essays"

text \<open>Phase 3: \<open>simple_comparative_ranking\<close>, a text for the report.\<close>

fun simple_comparative_ranking :: "reply \<Rightarrow> string" where
  "simple_comparative_ranking (Raised e) = ''Ranking error: '' @ e"
| "simple_comparative_ranking (Http status body) =
     (if status \<noteq> 200 then ''Ranking analysis failed - timeout or error''
      else response_text body)"

text \<open>The value the function returns: \<open>successful_analyses\<close>, or the empty list
  on each of its early returns.\<close>

definition process_essay_folder_with_quick_analysis :: "folder \<Rightarrow> scored_essay list" where
  "process_essay_folder_with_quick_analysis d =
     (if \<not> folder_exists d then []
      else if \<not> ollama_connection d then []
      else if essay_files d = [] then []
      else (let independence_day_essays =
                  fst (classification_phase (classify_reply d) (essay_files d))
            in if independence_day_essays = [] then []
               else analysis_phase (analysis_reply d) independence_day_essays))"

definition rank_essays :: "scored_essay list \<Rightarrow> scored_essay list" where
  "rank_essays successful_analyses =
     py_sorted_reverse (\<lambda>x. overall_score (analysis x)) successful_analyses"

text \<open>The order of the essays in the report of a run, \<open>sorted_essays\<close>; a run that
  returned early wrote no report and has no essay to list.\<close>

definition sorted_essays :: "folder \<Rightarrow> scored_essay list" where
  "sorted_essays d = rank_essays (process_essay_folder_with_quick_analysis d)"

section \<open>Several zones: \<open>multi_zone_competition\<close>\<close>

text \<open>An entry of \<open>top_3_data\<close>, its keys written with the prefix \<open>top_\<close>.\<close>

record top_essay =
  top_filename :: string
  top_zone :: string
  top_content :: string
  top_overall_score :: rat
  top_grade :: string
  top_strengths :: string
  top_analysis :: analysis
  top_zone_rank :: nat

definition top_entry :: "string \<Rightarrow> scored_essay list \<Rightarrow> nat \<Rightarrow> top_essay" where
  "top_entry zone_name ranked i =
     (let essay = ranked ! i
      in \<lparr> top_filename = filename essay, top_zone = zone_name,
           top_content = essay_content essay,
           top_overall_score = overall_score (analysis essay),
           top_grade = grade (analysis essay),
           top_strengths = strengths (analysis essay),
           top_analysis = analysis essay,
           top_zone_rank = i + 1 \<rparr>)"

definition process_single_zone_for_multi :: "folder \<Rightarrow> string \<Rightarrow> top_essay list" where
  "process_single_zone_for_multi zone_folder zone_name =
     (let successful_analyses = process_essay_folder_with_quick_analysis zone_folder
      in if successful_analyses = [] then []
         else (let ranked = rank_essays successful_analyses
               in map (top_entry zone_name ranked) [0..<min 3 (length ranked)]))"

text \<open>
  \<open>compare_zones_top_essays\<close> builds \<open>combined_summary\<close>, the only part of its
  prompt that varies, with the counter \<open>essay_count\<close>. The first argument stands for
  the builtin \<open>format(x, ".1f")\<close> on floats.
\<close>

definition essay_summary :: "(rat \<Rightarrow> string) \<Rightarrow> string \<Rightarrow> nat \<Rightarrow> top_essay \<Rightarrow> string" where
  "essay_summary fmt zone_name essay_count essay =
     ''\<newline>Essay '' @ str_nat essay_count @ '': '' @ top_filename essay
       @ '' (from '' @ zone_name @ '')\<newline>''
     @ ''Zone Rank: #'' @ str_nat (top_zone_rank essay) @ '', Zone Score: ''
       @ fmt (top_overall_score essay) @ ''/10\<newline>''
     @ ''Strengths: '' @ top_strengths essay @ ''\<newline>''
     @ ''Content Preview: '' @ take 400 (top_content essay) @ ''...\<newline>''"

definition essay_loop ::
  "(rat \<Rightarrow> string) \<Rightarrow> string \<Rightarrow> string \<times> nat \<Rightarrow> top_essay \<Rightarrow> string \<times> nat" where
  "essay_loop fmt zone_name st essay =
     (let essay_count = snd st + 1
      in (fst st @ essay_summary fmt zone_name essay_count essay, essay_count))"

definition zone_loop ::
  "(rat \<Rightarrow> string) \<Rightarrow> string \<times> nat \<Rightarrow> top_essay list \<Rightarrow> string \<times> nat" where
  "zone_loop fmt st zone_essays =
     (case zone_essays of
        [] \<Rightarrow> st
      | first # _ \<Rightarrow>
          (let zone_name = top_zone first
           in foldl (essay_loop fmt zone_name)
                (fst st @ ''\<newline>=== '' @ zone_name @ '' Top Essays ===\<newline>'', snd st)
                zone_essays))"

definition combined_summary :: "(rat \<Rightarrow> string) \<Rightarrow> top_essay list list \<Rightarrow> string" where
  "combined_summary fmt all_zone_essays = fst (foldl (zone_loop fmt) ([], 0) all_zone_essays)"

text \<open>The text \<open>compare_zones_top_essays\<close> returns, from what its one call gave.\<close>

fun compare_zones_top_essays :: "reply \<Rightarrow> string" where
  "compare_zones_top_essays (Raised e) = ''Error in grand comparison: '' @ e"
| "compare_zones_top_essays (Http status body) =
     (if status = 200 then (case body of None \<Rightarrow> [] | Some t \<Rightarrow> t)
      else ''Error: HTTP '' @ str_int status)"

text \<open>What the user types for one zone: the folder and the name of the zone.\<close>

record zone_setup =
  zone_folder :: folder
  zone_name :: string

text \<open>
  The loop over the zones. Its state is the two lists \<open>zone_names\<close> and
  \<open>all_zone_essays\<close>, and with them what the loop has left on disk so far: the report
  that \<open>process_essay_folder_with_quick_analysis\<close>, called by
  \<open>process_single_zone_for_multi\<close>, writes into the folder of its zone, here the
  ranking of the report under the name of the zone. A folder that is not there is
  skipped.
\<close>

record zones_state =
  zone_names :: "string list"
  all_zone_essays :: "top_essay list list"
  zone_reports :: "(string \<times> scored_essay list) list"

definition zone_step :: "zones_state \<Rightarrow> zone_setup \<Rightarrow> zones_state" where
  "zone_step st z =
     (if \<not> folder_exists (zone_folder z) then st
      else \<lparr> zone_names = zone_names st @ [zone_name z],
             all_zone_essays =
               all_zone_essays st @ [process_single_zone_for_multi (zone_folder z) (zone_name z)],
             zone_reports = zone_reports st @ [(zone_name z, sorted_essays (zone_folder z))] \<rparr>)"

text \<open>
  What a run of \<open>multi_zone_competition\<close> leaves behind when it returns: the message of
  an early return, the reports of the zones as the loop left them (\<open>zone_rankings\<close>;
  nothing after the loop writes to them), and the grand comparison, which is there only
  when the run reached it: the summary put into its prompt and the text written to the
  championship report.
\<close>

record competition =
  message :: "string option"
  zone_rankings :: "(string \<times> scored_essay list) list"
  grand_summary :: "string option"
  grand_result :: "string option"

text \<open>
  \<open>num_zones\<close> is what \<open>int(input(...))\<close> gave, \<open>None\<close> when it raised
  \<open>ValueError\<close>, which the function catches; \<open>setups i\<close> is what the user types for
  zone \<open>i + 1\<close>. The function has no \<open>raise\<close> statement: where it cannot go on, it
  prints a message and returns. The result is the class name of an exception that leaves
  the function (\<open>Inl\<close>), or what the run leaves behind when it returns (\<open>Inr\<close>).
\<close>

definition multi_zone_competition ::
  "(rat \<Rightarrow> string) \<Rightarrow> int option \<Rightarrow> (nat \<Rightarrow> zone_setup) \<Rightarrow> reply
     \<Rightarrow> string + competition" where
  "multi_zone_competition fmt num_zones setups grand_reply =
     (case num_zones of
        None \<Rightarrow> Inr \<lparr> message = Some ''Invalid number!'', zone_rankings = [],
                      grand_summary = None, grand_result = None \<rparr>
      | Some n \<Rightarrow>
          if n < 2
          then Inr \<lparr> message = Some ''Need at least 2 zones for comparison!'',
                     zone_rankings = [], grand_summary = None, grand_result = None \<rparr>
          else (let zones = map setups [0..<nat n];
                    st = foldl zone_step
                           \<lparr> zone_names = [], all_zone_essays = [], zone_reports = [] \<rparr> zones;
                    valid_zones = filter (\<lambda>(name, essays). essays \<noteq> [])
                                    (zip (zone_names st) (all_zone_essays st))
                in if length valid_zones < 2
                   then Inr \<lparr> message =
                                Some ''Need at least 2 zones with valid essays for comparison!'',
                              zone_rankings = zone_reports st,
                              grand_summary = None, grand_result = None \<rparr>
                   else Inr \<lparr> message = None, zone_rankings = zone_reports st,
                              grand_summary = Some (combined_summary fmt (map snd valid_zones)),
                              grand_result = Some (compare_zones_top_essays grand_reply) \<rparr>))"

section \<open>Failed calls\<close>

text \<open>
  The two functions that call the service per essay treat a call as failed when it raised
  or answered with a status other than 200; the text that \<open>ollama_classify_score\<close> then
  returns is the text of the exception, or \<open>HTTP\<close> and the status.
\<close>

definition call_failed :: "reply \<Rightarrow> bool" where
  "call_failed r = (case r of Raised e \<Rightarrow> True | Http status body \<Rightarrow> status \<noteq> 200)"

definition failure_message :: "reply \<Rightarrow> string" where
  "failure_message r = (case r of Raised e \<Rightarrow> e | Http status body \<Rightarrow> ''HTTP '' @ str_int status)"

text \<open>A protocol error in the wider sense: also an answer with status 200 whose body
  has no \<open>response\<close> field.\<close>

definition transport_or_protocol_error :: "reply \<Rightarrow> bool" where
  "transport_or_protocol_error r =
     (case r of Raised e \<Rightarrow> True | Http status body \<Rightarrow> status \<noteq> 200 \<or> body = None)"

section \<open>The zones of a competition, as a run meets them\<close>

definition processed_zones :: "int \<Rightarrow> (nat \<Rightarrow> zone_setup) \<Rightarrow> zone_setup list" where
  "processed_zones n setups =
     filter (\<lambda>z. folder_exists (zone_folder z)) (map setups [0..<nat n])"

definition zone_top_essays :: "zone_setup \<Rightarrow> top_essay list" where
  "zone_top_essays z = process_single_zone_for_multi (zone_folder z) (zone_name z)"

text \<open>The lists of essays that \<open>multi_zone_competition\<close> keeps in \<open>valid_zones\<close>.\<close>

definition surviving_zones :: "int \<Rightarrow> (nat \<Rightarrow> zone_setup) \<Rightarrow> top_essay list list" where
  "surviving_zones n setups =
     filter (\<lambda>essays. essays \<noteq> []) (map zone_top_essays (processed_zones n setups))"

section \<open>Sample runs\<close>

definition file_a1 :: essay_file where
  "file_a1 = \<lparr> file_name = ''a1.txt'', file_path = ''north/a1.txt'',
               file_read = Inr ''Gandhi hoisted the TIRANGA.'' \<rparr>"

definition file_a2 :: essay_file where
  "file_a2 = \<lparr> file_name = ''a2.txt'', file_path = ''north/a2.txt'',
               file_read = Inr ''Nehru spoke at the Red Fort.'' \<rparr>"

text \<open>A zone where the classification call for the first file times out.\<close>

definition zone_north :: folder where
  "zone_north =
     \<lparr> folder_exists = True, ollama_connection = True,
       essay_files = [file_a1, file_a2],
       classify_reply = (\<lambda>name. if name = ''a1.txt'' then Raised ''timed out''
                                 else Http 200 (Some ''CLASSIFICATION: YES'')),
       analysis_reply = (\<lambda>name. Http 200 (Some ''Relevance: 9'')),
       ranking_reply = Raised ''timed out'' \<rparr>"

text \<open>A zone where both files are classified \<open>YES\<close> and the analysis call for the
  first one times out.\<close>

definition zone_south :: folder where
  "zone_south =
     \<lparr> folder_exists = True, ollama_connection = True,
       essay_files = [file_a1, file_a2],
       classify_reply = (\<lambda>name. Http 200 (Some ''CLASSIFICATION: YES'')),
       analysis_reply = (\<lambda>name. if name = ''a1.txt'' then Raised ''timed out''
                                 else Http 200 (Some ''Relevance: 1'')),
       ranking_reply = Raised ''timed out'' \<rparr>"

text \<open>A zone where the classification call is answered with status 200 and a body
  without the \<open>response\<close> field.\<close>

definition zone_west :: folder where
  "zone_west =
     \<lparr> folder_exists = True, ollama_connection = True,
       essay_files = [file_a1],
       classify_reply = (\<lambda>name. Http 200 None),
       analysis_reply = (\<lambda>name. Http 200 (Some ''Relevance: 9'')),
       ranking_reply = Raised ''timed out'' \<rparr>"

text \<open>A zone whose folder holds no essay file.\<close>

definition zone_empty :: folder where
  "zone_empty =
     \<lparr> folder_exists = True, ollama_connection = True,
       essay_files = [],
       classify_reply = (\<lambda>name. Raised ''timed out''),
       analysis_reply = (\<lambda>name. Raised ''timed out''),
       ranking_reply = Raised ''timed out'' \<rparr>"

definition two_full_zones :: "nat \<Rightarrow> zone_setup" where
  "two_full_zones i =
     (if i = 0 then \<lparr> zone_folder = zone_north, zone_name = ''North'' \<rparr>
      else \<lparr> zone_folder = zone_south, zone_name = ''South'' \<rparr>)"

definition one_full_zone :: "nat \<Rightarrow> zone_setup" where
  "one_full_zone i =
     (if i = 0 then \<lparr> zone_folder = zone_north, zone_name = ''North'' \<rparr>
      else \<lparr> zone_folder = zone_empty, zone_name = ''Nowhere'' \<rparr>)"

text \<open>A stand-in for \<open>format(x, ".1f")\<close>, right on the multiples of one tenth from 0 on.\<close>

definition one_decimal :: "rat \<Rightarrow> string" where
  "one_decimal x = str_int \<lfloor>x\<rfloor> @ ''.'' @ str_int (\<lfloor>10 * x\<rfloor> mod 10)"

section \<open>Evaluation on concrete texts\<close>

text \<open>The defining equations that the simplifier needs to run the text functions and
  the classifier on a given text.\<close>

lemmas text_eval =
  isspace_def in_class_def isdigit_def lower_ch_def upper_ch_def py_lower_def py_upper_def
  strip_def startswith_def digit_val_def int_of_digits_def starts_ci_def at_end_def
  matches_ci_def py_int_def int_max_str_digits_def
  yes_or_no_def match_classification_def match_score_def digits_group_def match_rating_def
  match_strengths_def match_topics_def response_text_def char_of_def
  bit_Suc_0_iff bit_1_iff

lemmas classify_eval =
  text_eval parsed_classification_def classification_of_def score_of_def
  independence_score_def other_score_def keyword_score_def
  independence_keywords_def other_keywords_def

section \<open>Properties of the classifier\<close>

lemma startswith_iff: "startswith s p \<longleftrightarrow> (\<exists>q. s = p @ q)"
proof
  assume "startswith s p"
  then have "s = p @ drop (length p) s"
    by (metis append_take_drop_id startswith_def)
  then show "\<exists>q. s = p @ q" ..
next
  assume "\<exists>q. s = p @ q"
  then show "startswith s p" by (auto simp: startswith_def)
qed

lemma contains_iff: "contains s kw \<longleftrightarrow> (\<exists>p q. s = p @ kw @ q)"
proof (induction s)
  case Nil
  then show ?case by auto
next
  case (Cons c cs)
  show ?case
  proof
    assume "contains (c # cs) kw"
    then consider "startswith (c # cs) kw" | "contains cs kw" by auto
    then show "\<exists>p q. c # cs = p @ kw @ q"
    proof cases
      case 1
      then obtain q where "c # cs = kw @ q" by (auto simp: startswith_iff)
      then have "c # cs = [] @ kw @ q" by simp
      then show ?thesis by blast
    next
      case 2
      then obtain p q where "cs = p @ kw @ q" using Cons.IH by auto
      then have "c # cs = (c # p) @ kw @ q" by simp
      then show ?thesis by blast
    qed
  next
    assume "\<exists>p q. c # cs = p @ kw @ q"
    then obtain p q where pq: "c # cs = p @ kw @ q" by auto
    show "contains (c # cs) kw"
    proof (cases p)
      case Nil
      then have "startswith (c # cs) kw" using pq by (auto simp: startswith_iff)
      then show ?thesis by simp
    next
      case (Cons a p')
      then have "cs = p' @ kw @ q" using pq by simp
      then have "contains cs kw" using Cons.IH by blast
      then show ?thesis by simp
    qed
  qed
qed

lemma keyword_score_substrings:
  "keyword_score keywords s = length (filter (\<lambda>keyword. \<exists>p q. s = p @ keyword @ q) keywords)"
proof -
  have "filter (contains s) keywords = filter (\<lambda>keyword. \<exists>p q. s = p @ keyword @ q) keywords"
    by (rule filter_cong) (simp_all add: contains_iff)
  then show ?thesis by (simp add: keyword_score_def)
qed

lemma parsed_classification_cases:
  "parsed_classification out = ''Yes'' \<or> parsed_classification out = ''No''"
  by (simp add: parsed_classification_def split: option.split)

lemma classification_of_cases:
  "classification_of out essay = ''Yes'' \<or> classification_of out essay = ''No''"
  using parsed_classification_cases [of out] by (auto simp: classification_of_def)


lemma ws_star_Some: "ws_star k r = Some g \<Longrightarrow> \<exists>r'. k r' = Some g"
proof (induction r)
  case Nil
  then show ?case by auto
next
  case (Cons c cs)
  show ?case
  proof (cases "isspace c")
    case False
    with Cons.prems show ?thesis by auto
  next
    case True
    show ?thesis
    proof (cases "ws_star k cs")
      case None
      with True Cons.prems show ?thesis by auto
    next
      case (Some g')
      with True Cons.prems have "g' = g" by simp
      with Some Cons.IH show ?thesis by simp
    qed
  qed
qed

lemma re_search_Some: "re_search m s = Some g \<Longrightarrow> \<exists>s'. m s' = Some g"
proof (induction s)
  case Nil
  then show ?case by auto
next
  case (Cons c cs)
  then show ?case by (cases "m (c # cs)") auto
qed

lemma re_search_None: "(\<And>t. m t = None) \<Longrightarrow> re_search m s = None"
  by (induction s) auto

lemma digit_val_class:
  "in_class (CHR ''1'') (CHR ''5'') d \<Longrightarrow> 1 \<le> digit_val d \<and> digit_val d \<le> 5"
  "isdigit f \<Longrightarrow> 0 \<le> digit_val f \<and> digit_val f \<le> 9"
  by (simp_all add: in_class_def isdigit_def digit_val_def)

lemma score_group_range:
  assumes "score_group r = Some x"
  shows "1 \<le> x \<and> x \<le> 59 / 10"
proof (cases r)
  case Nil
  with assms show ?thesis by simp
next
  case (Cons d r')
  with assms have d: "in_class (CHR ''1'') (CHR ''5'') d"
    by (simp split: if_splits)
  then have dv: "1 \<le> digit_val d \<and> digit_val d \<le> 5" by (rule digit_val_class)
  then have dr: "(1::rat) \<le> of_int (digit_val d) \<and> (of_int (digit_val d) :: rat) \<le> 5"
    by simp
  have "(\<exists>f. isdigit f \<and> x = of_int (digit_val d) + of_int (digit_val f) / 10)
        \<or> x = of_int (digit_val d)"
    using assms d unfolding Cons by (simp split: list.splits if_splits) blast
  then show ?thesis
  proof
    assume "\<exists>f. isdigit f \<and> x = of_int (digit_val d) + of_int (digit_val f) / 10"
    then obtain f where f: "isdigit f" "x = of_int (digit_val d) + of_int (digit_val f) / 10"
      by blast
    then have "0 \<le> digit_val f \<and> digit_val f \<le> 9" using digit_val_class by blast
    then have "(0::rat) \<le> of_int (digit_val f) \<and> (of_int (digit_val f) :: rat) \<le> 9"
      by simp
    with dr f show ?thesis by simp
  next
    assume "x = of_int (digit_val d)"
    with dr show ?thesis by simp
  qed
qed

lemma score_of_range: "1 \<le> score_of out \<and> score_of out \<le> 59 / 10"
proof (cases "re_search match_score out")
  case None
  then show ?thesis by (simp add: score_of_def)
next
  case (Some x)
  from re_search_Some [OF Some] obtain s where s: "match_score s = Some x" ..
  have "\<exists>r. ws_star score_group r = Some x"
  proof (cases "literal_ci ''SCORE:'' s")
    case None
    with s show ?thesis unfolding match_score_def by simp
  next
    case (Some r)
    with s have "ws_star score_group r = Some x" unfolding match_score_def by simp
    then show ?thesis ..
  qed
  then obtain r where "ws_star score_group r = Some x" ..
  from ws_star_Some [OF this] obtain r' where "score_group r' = Some x" ..
  then have "1 \<le> x \<and> x \<le> 59 / 10" by (rule score_group_range)
  with \<open>re_search match_score out = Some x\<close> show ?thesis by (simp add: score_of_def)
qed

text \<open>
  C10. The classification returned is one of \<open>Yes\<close>, \<open>No\<close> and \<open>Error\<close>, whatever the
  call gave and whatever the essay; the score is \<open>None\<close> exactly when the classification
  is \<open>Error\<close>; and when the call answered with status 200 the classification is not
  \<open>Error\<close> and the score is there, the parsed value or the default 3.0.
\<close>

theorem classification_is_one_of_three_and_score_absent_iff_error:
  "fst (ollama_classify_score r essay) \<in> {''Yes'', ''No'', ''Error''}
   \<and> (fst (snd (ollama_classify_score r essay)) = None
        \<longleftrightarrow> fst (ollama_classify_score r essay) = ''Error'')
   \<and> fst (snd (ollama_classify_score (Http 200 body) essay))
        = Some (score_of (response_text body))
   \<and> fst (ollama_classify_score (Http 200 body) essay) \<noteq> ''Error''"
proof -
  have a: "fst (ollama_classify_score r essay) \<in> {''Yes'', ''No'', ''Error''}
   \<and> (fst (snd (ollama_classify_score r essay)) = None
        \<longleftrightarrow> fst (ollama_classify_score r essay) = ''Error'')"
  proof (cases r)
    case (Raised e)
    then show ?thesis by simp
  next
    case (Http status b)
    then show ?thesis
      using classification_of_cases [of "response_text b" essay]
      by (auto simp: Let_def)
  qed
  have b: "fst (ollama_classify_score (Http 200 body) essay) \<noteq> ''Error''"
    using classification_of_cases [of "response_text body" essay] by (auto simp: Let_def)
  show ?thesis using a b by (simp add: Let_def)
qed

text \<open>
  C2. For an answer with status 200: the verdict read from the answer is \<open>Yes\<close> only when
  the leftmost \<open>CLASSIFICATION:\<close> field, in any case, carries \<open>YES\<close>, and \<open>No\<close>
  otherwise. The final verdict is \<open>Yes\<close> exactly when that verdict is \<open>Yes\<close> or the
  number of inclusion keywords found exceeds the number of exclusion keywords found and
  is at least 2; so on a verdict \<open>No\<close> the override decides, and a verdict \<open>Yes\<close> is never
  changed. Both numbers count the keywords that occur anywhere in the whole lower-cased
  text of the essay.
\<close>

theorem keyword_fallback_overrides_exactly_when_counts_allow:
  "(parsed_classification (response_text body) = ''Yes''
      \<longleftrightarrow> (\<exists>g. re_search match_classification (response_text body) = Some g
               \<and> py_upper g = ''YES''))
   \<and> (fst (ollama_classify_score (Http 200 body) essay) = ''Yes''
      \<longleftrightarrow> parsed_classification (response_text body) = ''Yes''
          \<or> (other_score essay < independence_score essay \<and> 2 \<le> independence_score essay))
   \<and> (fst (ollama_classify_score (Http 200 body) essay) = ''No''
      \<longleftrightarrow> parsed_classification (response_text body) = ''No''
          \<and> \<not> (other_score essay < independence_score essay \<and> 2 \<le> independence_score essay))
   \<and> independence_score essay
        = length (filter (\<lambda>keyword. \<exists>p q. py_lower essay = p @ keyword @ q) independence_keywords)
   \<and> other_score essay
        = length (filter (\<lambda>keyword. \<exists>p q. py_lower essay = p @ keyword @ q) other_keywords)"
proof -
  have "independence_score essay
        = length (filter (\<lambda>keyword. \<exists>p q. py_lower essay = p @ keyword @ q) independence_keywords)"
    and "other_score essay
        = length (filter (\<lambda>keyword. \<exists>p q. py_lower essay = p @ keyword @ q) other_keywords)"
    by (simp_all add: independence_score_def other_score_def keyword_score_substrings)
  moreover have "(fst (ollama_classify_score (Http 200 body) essay) = ''Yes''
      \<longleftrightarrow> parsed_classification (response_text body) = ''Yes''
          \<or> (other_score essay < independence_score essay \<and> 2 \<le> independence_score essay))"
    using parsed_classification_cases [of "response_text body"]
    by (auto simp: Let_def classification_of_def)
  moreover have "(fst (ollama_classify_score (Http 200 body) essay) = ''No''
      \<longleftrightarrow> parsed_classification (response_text body) = ''No''
          \<and> \<not> (other_score essay < independence_score essay \<and> 2 \<le> independence_score essay))"
    using parsed_classification_cases [of "response_text body"]
    by (auto simp: Let_def classification_of_def)
  moreover have "(parsed_classification (response_text body) = ''Yes''
      \<longleftrightarrow> (\<exists>g. re_search match_classification (response_text body) = Some g
               \<and> py_upper g = ''YES''))"
    by (simp add: parsed_classification_def split: option.split)
  ultimately show ?thesis by blast
qed

text \<open>Two essays answered with \<open>CLASSIFICATION: NO\<close>: two inclusion keywords and no
  exclusion keyword give \<open>Yes\<close>, one inclusion keyword and no exclusion keyword leave
  \<open>No\<close>.\<close>

theorem keyword_fallback_two_keywords_and_one_keyword:
  "fst (ollama_classify_score (Http 200 (Some ''CLASSIFICATION: NO''))
          ''Gandhi hoisted the TIRANGA.'') = ''Yes''
   \<and> fst (ollama_classify_score (Http 200 (Some ''CLASSIFICATION: NO''))
          ''My hero is Nehru.'') = ''No''"
proof -
  have p: "parsed_classification (response_text (Some ''CLASSIFICATION: NO'')) = ''No''"
    by (simp add: classify_eval)
  have two: "independence_score ''Gandhi hoisted the TIRANGA.'' = 2"
    "other_score ''Gandhi hoisted the TIRANGA.'' = 0"
    by (simp_all add: classify_eval)
  have one: "independence_score ''My hero is Nehru.'' = 1"
    "other_score ''My hero is Nehru.'' = 0"
    by (simp_all add: classify_eval)
  show ?thesis
    using keyword_fallback_overrides_exactly_when_counts_allow
            [of "Some ''CLASSIFICATION: NO''" "''Gandhi hoisted the TIRANGA.''"]
          keyword_fallback_overrides_exactly_when_counts_allow
            [of "Some ''CLASSIFICATION: NO''" "''My hero is Nehru.''"]
    by (simp only: p two one) simp
qed

text \<open>
  C7. The pattern for the \<open>SCORE:\<close> field takes a leading digit from 1 to 5 and then any
  decimal digit, so an answer \<open>SCORE: 5.9\<close> is parsed to 5.9, above the 5.0 the prompt
  asks for.
\<close>

theorem score_field_above_five_is_accepted:
  "ollama_classify_score (Http 200 (Some ''CLASSIFICATION: YES\<newline>SCORE: 5.9'')) ''Hello''
   = (''Yes'', Some (59 / 10), ''CLASSIFICATION: YES\<newline>SCORE: 5.9'')
   \<and> \<not> (59 / 10 :: rat) \<le> 5"
  by (simp add: classify_eval)

section \<open>Properties of the scorer\<close>

lemma rating_range: "rating label output = Inr v \<Longrightarrow> 1 \<le> v \<and> v \<le> 10"
  by (auto simp: rating_def split: option.splits sum.splits)

lemma ratings_five:
  assumes "ratings [l1, l2, l3, l4, l5] out = Inr scores"
  shows "\<exists>v1 v2 v3 v4 v5. scores = [v1, v2, v3, v4, v5]
           \<and> rating l1 out = Inr v1 \<and> rating l2 out = Inr v2 \<and> rating l3 out = Inr v3
           \<and> rating l4 out = Inr v4 \<and> rating l5 out = Inr v5"
  using assms by (auto split: sum.splits)

lemma parse_analysis_Inr:
  assumes "parse_analysis out = Inr a"
  shows "rating ''Relevance:'' out = Inr (relevance a)
     \<and> rating ''Content:'' out = Inr (content a)
     \<and> rating ''Writing:'' out = Inr (writing a)
     \<and> rating ''Original:'' out = Inr (original a)
     \<and> rating ''Impact:'' out = Inr (impact a)
     \<and> overall_score a
          = of_int (relevance a + content a + writing a + original a + impact a) / 5
     \<and> grade a = assign_grade (overall_score a)"
proof (cases "ratings rating_labels out")
  case (Inl e)
  with assms show ?thesis by (simp add: parse_analysis_def)
next
  case (Inr scores)
  from ratings_five [OF Inr [unfolded rating_labels_def]]
  obtain v1 v2 v3 v4 v5 where v: "scores = [v1, v2, v3, v4, v5]"
    "rating ''Relevance:'' out = Inr v1" "rating ''Content:'' out = Inr v2"
    "rating ''Writing:'' out = Inr v3" "rating ''Original:'' out = Inr v4"
    "rating ''Impact:'' out = Inr v5"
    by blast
  from assms Inr have "a = (let overall = of_int (sum_list scores) / of_int (int (length scores))
               in \<lparr> relevance = scores ! 0, content = scores ! 1, writing = scores ! 2,
                    original = scores ! 3, impact = scores ! 4,
                    overall_score = overall,
                    strengths = (case re_search match_strengths out of
                                   Some g \<Rightarrow> strip g
                                 | None \<Rightarrow> ''Good Independence Day essay''),
                    topics = (case re_search match_topics out of
                                Some g \<Rightarrow> strip g
                              | None \<Rightarrow> ''Independence Day themes''),
                    grade = assign_grade overall,
                    raw_output = Some out \<rparr>)"
    by (simp add: parse_analysis_def)
  with v show ?thesis by (simp add: Let_def)
qed

lemma quick_essay_analysis_Some:
  assumes "quick_essay_analysis r = Some a"
  obtains body where "r = Http 200 body" and "parse_analysis (response_text body) = Inr a"
  using assms by (cases r) (auto split: if_splits sum.splits)

lemma analysis_step_score_report:
  "analysis_step call acc e = acc @ [with_analysis e (score_report (call (filename e)))]"
  by (simp add: analysis_step_def score_report_def split: option.split)

text \<open>
  C1. Whatever the scoring call gave, a well-formed answer, a malformed or partial one,
  or a failure replaced by the default analysis, the overall score of the analysis an
  essay ends up with is the sum of its five ratings (relevance, content, writing,
  original, impact) divided by five, and each of the five lies between 1 and 10.
\<close>

theorem overall_score_is_mean_of_five_ratings:
  "(let a = score_report r
    in overall_score a
         = of_int (relevance a + content a + writing a + original a + impact a) / 5
       \<and> 1 \<le> relevance a \<and> relevance a \<le> 10
       \<and> 1 \<le> content a \<and> content a \<le> 10
       \<and> 1 \<le> writing a \<and> writing a \<le> 10
       \<and> 1 \<le> original a \<and> original a \<le> 10
       \<and> 1 \<le> impact a \<and> impact a \<le> 10)"
proof (cases "quick_essay_analysis r")
  case None
  then show ?thesis by (simp add: score_report_def default_analysis_def)
next
  case (Some a)
  then obtain body where "parse_analysis (response_text body) = Inr a"
    by (rule quick_essay_analysis_Some)
  from parse_analysis_Inr [OF this]
  have a: "rating ''Relevance:'' (response_text body) = Inr (relevance a)"
    "rating ''Content:'' (response_text body) = Inr (content a)"
    "rating ''Writing:'' (response_text body) = Inr (writing a)"
    "rating ''Original:'' (response_text body) = Inr (original a)"
    "rating ''Impact:'' (response_text body) = Inr (impact a)"
    "overall_score a
       = of_int (relevance a + content a + writing a + original a + impact a) / 5"
    by simp_all
  show ?thesis
    using Some a(6) a(1-5) [THEN rating_range]
    by (simp add: score_report_def Let_def)
qed

text \<open>
  C5. The grade is a step function of the overall score: \<open>A+\<close> from 9, \<open>A\<close> from 8,
  \<open>B+\<close> from 7, \<open>B\<close> from 6, \<open>C+\<close> from 5 and \<open>C\<close> below; every score has exactly
  the grade of the one interval it lies in, the breakpoints 9, 8, 7, 6 and 5 belong to
  the upper grade and 4.99 is a \<open>C\<close>; and the grade of every analysis an essay ends up
  with is this function of its overall score.
\<close>

theorem grade_is_step_function_of_overall_score:
  "(assign_grade s = ''A+'' \<longleftrightarrow> 9 \<le> s)
   \<and> (assign_grade s = ''A'' \<longleftrightarrow> 8 \<le> s \<and> s < 9)
   \<and> (assign_grade s = ''B+'' \<longleftrightarrow> 7 \<le> s \<and> s < 8)
   \<and> (assign_grade s = ''B'' \<longleftrightarrow> 6 \<le> s \<and> s < 7)
   \<and> (assign_grade s = ''C+'' \<longleftrightarrow> 5 \<le> s \<and> s < 6)
   \<and> (assign_grade s = ''C'' \<longleftrightarrow> s < 5)
   \<and> assign_grade 9 = ''A+'' \<and> assign_grade 8 = ''A'' \<and> assign_grade 7 = ''B+''
   \<and> assign_grade 6 = ''B'' \<and> assign_grade 5 = ''C+'' \<and> assign_grade (499 / 100) = ''C''
   \<and> grade (score_report r) = assign_grade (overall_score (score_report r))"
proof -
  have "grade (score_report r) = assign_grade (overall_score (score_report r))"
  proof (cases "quick_essay_analysis r")
    case None
    then show ?thesis by (simp add: score_report_def default_analysis_def assign_grade_def)
  next
    case (Some a)
    then obtain body where "parse_analysis (response_text body) = Inr a"
      by (rule quick_essay_analysis_Some)
    from parse_analysis_Inr [OF this]
    show ?thesis using Some by (simp add: score_report_def)
  qed
  then show ?thesis by (auto simp add: assign_grade_def)
qed
























section \<open>Properties of the ranking\<close>

lemma py_sorted_reverse_mset: "mset (py_sorted_reverse key xs) = mset xs"
  by (simp add: py_sorted_reverse_def)

lemma py_sorted_reverse_sorted:
  "sorted_wrt (\<lambda>a b. key a \<ge> key b) (py_sorted_reverse key xs)"
proof -
  have "sorted (map key (sort_key key (rev xs)))" by simp
  then have "sorted_wrt (\<lambda>a b. key a \<le> key b) (sort_key key (rev xs))"
    by (simp only: sorted_map)
  then show ?thesis
    by (simp add: py_sorted_reverse_def sorted_wrt_rev)
qed

lemma py_sorted_reverse_stable:
  "filter (\<lambda>x. key x = k) (py_sorted_reverse key xs) = filter (\<lambda>x. key x = k) xs"
proof -
  have "filter (\<lambda>x. key x = k) (sort_key key (rev xs)) = filter (\<lambda>x. key x = k) (rev xs)"
    by (rule sort_key_stable)
  then show ?thesis
    by (simp add: py_sorted_reverse_def rev_filter [symmetric])
qed

text \<open>
  C3. For every list of scored essays, the ranking has the same essays with the same
  multiplicities as the list (none dropped, none duplicated), is in non-increasing order
  of overall score, and lists the essays of any one overall score in the order they had
  in the input.
\<close>

theorem ranking_is_stable_descending_permutation:
  "mset (rank_essays xs) = mset xs
   \<and> sorted_wrt (\<lambda>a b. overall_score (analysis a) \<ge> overall_score (analysis b)) (rank_essays xs)
   \<and> (\<forall>k. filter (\<lambda>x. overall_score (analysis x) = k) (rank_essays xs)
            = filter (\<lambda>x. overall_score (analysis x) = k) xs)"
  unfolding rank_essays_def
  using py_sorted_reverse_mset [of "\<lambda>x. overall_score (analysis x)" xs]
        py_sorted_reverse_sorted [of "\<lambda>x. overall_score (analysis x)" xs]
        py_sorted_reverse_stable [of "\<lambda>x. overall_score (analysis x)" _ xs]
  by simp

section \<open>Properties of the run over one zone\<close>

lemma with_analysis_sel [simp]:
  "filename (with_analysis e a) = filename e"
  "filepath (with_analysis e a) = filepath e"
  "essay_content (with_analysis e a) = essay_content e"
  "basic_score (with_analysis e a) = basic_score e"
  "analysis (with_analysis e a) = a"
  by (simp_all add: with_analysis_def)

lemma foldl_analysis_step:
  "foldl (analysis_step call) acc es
   = acc @ map (\<lambda>e. with_analysis e (score_report (call (filename e)))) es"
  by (induction es arbitrary: acc) (simp_all add: analysis_step_score_report)

lemma analysis_phase_map:
  "analysis_phase call es = map (\<lambda>e. with_analysis e (score_report (call (filename e)))) es"
  by (simp add: analysis_phase_def foldl_analysis_step)

lemma classify_step_append:
  "classify_step call st f = (fst st @ fst (classified call f), snd st @ snd (classified call f))"
  by (simp add: classified_def classify_step_def Let_def split: prod.split)

lemma foldl_classify_step:
  "foldl (classify_step call) st fs
   = (fst st @ concat (map (\<lambda>f. fst (classified call f)) fs),
      snd st @ concat (map (\<lambda>f. snd (classified call f)) fs))"
proof (induction fs arbitrary: st)
  case Nil
  then show ?case by simp
next
  case (Cons f fs)
  show ?case
    by (simp only: foldl_Cons Cons.IH) (simp add: classify_step_append [of call st f])
qed

lemma classification_phase_concat:
  "classification_phase call fs
   = (concat (map (\<lambda>f. fst (classified call f)) fs), concat (map (\<lambda>f. snd (classified call f)) fs))"
  by (simp add: classification_phase_def foldl_classify_step)

lemma call_failed_classify:
  assumes "call_failed r"
  shows "ollama_classify_score r txt = (''Error'', None, failure_message r)"
  using assms by (cases r) (simp_all add: call_failed_def failure_message_def)

lemma classified_failed:
  assumes "call_failed (call (file_name f))"
  shows "classified call f = ([], [])"
  using call_failed_classify [OF assms]
  by (simp add: classified_def classify_step_def Let_def)

lemma classified_filename:
  assumes "e \<in> set (fst (classified call f))"
  shows "filename e = file_name f
         \<and> fst (ollama_classify_score (call (file_name f)) (read_file_content (file_read f)))
             \<noteq> ''Error''"
  using assms
  by (simp add: classified_def classify_step_def Let_def split: if_splits prod.splits)

lemma process_phases:
  assumes "folder_exists d" "ollama_connection d"
  shows "process_essay_folder_with_quick_analysis d
         = analysis_phase (analysis_reply d)
             (fst (classification_phase (classify_reply d) (essay_files d)))"
  using assms
  by (simp add: process_essay_folder_with_quick_analysis_def Let_def
        analysis_phase_def classification_phase_def)

lemma process_filenames:
  "set (map filename (process_essay_folder_with_quick_analysis d))
   \<subseteq> set (map filename (fst (classification_phase (classify_reply d) (essay_files d))))"
  by (simp add: process_essay_folder_with_quick_analysis_def Let_def analysis_phase_map
        image_image)

lemma set_rank_essays [simp]: "set (rank_essays xs) = set xs"
  by (simp add: rank_essays_def py_sorted_reverse_def)

lemma length_rank_essays [simp]: "length (rank_essays xs) = length xs"
  by (simp add: rank_essays_def py_sorted_reverse_def)

lemma sorted_essays_set:
  assumes "folder_exists d" "ollama_connection d"
  shows "set (sorted_essays d)
         = (\<lambda>e. with_analysis e (score_report (analysis_reply d (filename e))))
             ` set (fst (classification_phase (classify_reply d) (essay_files d)))"
  by (simp add: sorted_essays_def process_phases [OF assms] analysis_phase_map)

lemma call_failed_score_report:
  "call_failed r \<Longrightarrow> score_report r = default_analysis"
  by (cases r) (simp_all add: call_failed_def score_report_def)

lemma rating_of_empty: "rating (c # label) [] = Inr 6"
  by (simp add: rating_def match_rating_def)

lemma score_report_neutral:
  assumes "transport_or_protocol_error r"
  shows "relevance (score_report r) = 6 \<and> content (score_report r) = 6
         \<and> writing (score_report r) = 6 \<and> original (score_report r) = 6
         \<and> impact (score_report r) = 6 \<and> overall_score (score_report r) = 6
         \<and> grade (score_report r) = ''B''"
proof (cases "call_failed r")
  case True
  then show ?thesis by (simp add: call_failed_score_report default_analysis_def)
next
  case False
  with assms have r: "r = Http 200 None"
    by (cases r) (auto simp: call_failed_def transport_or_protocol_error_def)
  have "response_text None = []" by (simp add: response_text_def strip_def)
  then have "quick_essay_analysis r = Some (projr (parse_analysis []))"
    "parse_analysis [] = Inr (projr (parse_analysis []))"
    by (simp_all add: r parse_analysis_def rating_labels_def rating_of_empty)
  then have "score_report r = projr (parse_analysis [])"
    "rating ''Relevance:'' [] = Inr (relevance (projr (parse_analysis [])))
     \<and> rating ''Content:'' [] = Inr (content (projr (parse_analysis [])))
     \<and> rating ''Writing:'' [] = Inr (writing (projr (parse_analysis [])))
     \<and> rating ''Original:'' [] = Inr (original (projr (parse_analysis [])))
     \<and> rating ''Impact:'' [] = Inr (impact (projr (parse_analysis [])))
     \<and> overall_score (projr (parse_analysis []))
          = of_int (relevance (projr (parse_analysis [])) + content (projr (parse_analysis []))
                    + writing (projr (parse_analysis [])) + original (projr (parse_analysis []))
                    + impact (projr (parse_analysis []))) / 5
     \<and> grade (projr (parse_analysis [])) = assign_grade (overall_score (projr (parse_analysis [])))"
    using parse_analysis_Inr [of "[]" "projr (parse_analysis [])"]
    by (simp_all add: score_report_def)
  then show ?thesis
    by (simp add: rating_of_empty assign_grade_def)
qed

text \<open>
  C4. In a run that reaches the analysis phase, an essay that passed classification and
  whose scoring call failed (it raised, answered with a status other than 200, or
  answered without the \<open>response\<close> field) is in the ranked output with all five
  ratings 6, overall score 6.0 and grade \<open>B\<close>; when the call raised or the status was not
  200 its analysis is the fixed default one. The run returns an entry for every essay
  that passed classification, in the same order, and the ranked output holds exactly the
  entries returned.
\<close>

theorem failed_scoring_gives_neutral_analysis_and_keeps_the_essay:
  assumes "folder_exists d" and "ollama_connection d"
    and "e \<in> set (fst (classification_phase (classify_reply d) (essay_files d)))"
    and "transport_or_protocol_error (analysis_reply d (filename e))"
  shows "with_analysis e (score_report (analysis_reply d (filename e))) \<in> set (sorted_essays d)
    \<and> relevance (score_report (analysis_reply d (filename e))) = 6
    \<and> content (score_report (analysis_reply d (filename e))) = 6
    \<and> writing (score_report (analysis_reply d (filename e))) = 6
    \<and> original (score_report (analysis_reply d (filename e))) = 6
    \<and> impact (score_report (analysis_reply d (filename e))) = 6
    \<and> overall_score (score_report (analysis_reply d (filename e))) = 6
    \<and> grade (score_report (analysis_reply d (filename e))) = ''B''
    \<and> (call_failed (analysis_reply d (filename e))
         \<longrightarrow> score_report (analysis_reply d (filename e)) = default_analysis)
    \<and> map filename (process_essay_folder_with_quick_analysis d)
         = map filename (fst (classification_phase (classify_reply d) (essay_files d)))
    \<and> mset (sorted_essays d) = mset (process_essay_folder_with_quick_analysis d)"
proof -
  have "with_analysis e (score_report (analysis_reply d (filename e))) \<in> set (sorted_essays d)"
    using assms(3) by (simp add: sorted_essays_set [OF assms(1,2)])
  moreover have "map filename (process_essay_folder_with_quick_analysis d)
         = map filename (fst (classification_phase (classify_reply d) (essay_files d)))"
    by (simp add: process_phases [OF assms(1,2)] analysis_phase_map comp_def)
  moreover have "mset (sorted_essays d) = mset (process_essay_folder_with_quick_analysis d)"
    by (simp add: sorted_essays_def rank_essays_def py_sorted_reverse_def)
  ultimately show ?thesis
    using score_report_neutral [OF assms(4)] call_failed_score_report
    by blast
qed

lemmas pipeline_eval =
  classification_phase_def classify_step_def read_file_content_def Let_def
  file_a1_def file_a2_def

lemma south_included:
  "fst (classification_phase (classify_reply zone_south) (essay_files zone_south))
   = [\<lparr> filename = ''a1.txt'', filepath = ''north/a1.txt'',
         essay_content = ''Gandhi hoisted the TIRANGA.'', basic_score = Some 3 \<rparr>,
      \<lparr> filename = ''a2.txt'', filepath = ''north/a2.txt'',
         essay_content = ''Nehru spoke at the Red Fort.'', basic_score = Some 3 \<rparr>]"
  by (simp add: zone_south_def pipeline_eval classify_eval)

text \<open>In the zone \<open>zone_south\<close> the scoring call for \<open>a1.txt\<close> times out: the essay
  is ranked with the default analysis, and both essays are returned.\<close>

theorem timed_out_scoring_in_zone_south:
  "with_analysis
     \<lparr> filename = ''a1.txt'', filepath = ''north/a1.txt'',
       essay_content = ''Gandhi hoisted the TIRANGA.'', basic_score = Some 3 \<rparr>
     default_analysis \<in> set (sorted_essays zone_south)
   \<and> map filename (process_essay_folder_with_quick_analysis zone_south) = [''a1.txt'', ''a2.txt'']"
proof -
  let ?e = "\<lparr> filename = ''a1.txt'', filepath = ''north/a1.txt'',
       essay_content = ''Gandhi hoisted the TIRANGA.'', basic_score = Some 3 \<rparr>"
  have d: "folder_exists zone_south" "ollama_connection zone_south"
    by (simp_all add: zone_south_def)
  have e: "?e \<in> set (fst (classification_phase (classify_reply zone_south) (essay_files zone_south)))"
    by (simp only: south_included) simp
  have r: "analysis_reply zone_south (filename ?e) = Raised ''timed out''"
    by (simp add: zone_south_def)
  have f: "transport_or_protocol_error (analysis_reply zone_south (filename ?e))"
    "call_failed (analysis_reply zone_south (filename ?e))"
    by (simp_all only: r) (simp_all add: transport_or_protocol_error_def call_failed_def)
  note t = failed_scoring_gives_neutral_analysis_and_keeps_the_essay [OF d e f(1)]
  from t f(2) have "score_report (analysis_reply zone_south (filename ?e)) = default_analysis"
    by blast
  moreover from t have "with_analysis ?e (score_report (analysis_reply zone_south (filename ?e)))
      \<in> set (sorted_essays zone_south)"
    by blast
  moreover from t have "map filename (process_essay_folder_with_quick_analysis zone_south)
      = map filename (fst (classification_phase (classify_reply zone_south) (essay_files zone_south)))"
    by blast
  ultimately show ?thesis by (simp only: south_included) simp
qed

text \<open>
  C9, as amended. When the classification call for a file raised or answered with a
  status other than 200, the classifier returns \<open>Error\<close>, no score and the failure
  message; the turn of the loop for that file leaves both lists as they were, so the
  phase gives what it gives without the file, whatever comes before and after it; and no
  essay with that file name is passed on to scoring or appears in the ranked output.
\<close>

theorem failed_classification_excludes_the_item_and_the_run_goes_on:
  assumes "call_failed (classify_reply d (file_name f))"
  shows "ollama_classify_score (classify_reply d (file_name f)) txt
           = (''Error'', None, failure_message (classify_reply d (file_name f)))
    \<and> classify_step (classify_reply d) st f = st
    \<and> classification_phase (classify_reply d) (before @ f # after)
         = classification_phase (classify_reply d) (before @ after)
    \<and> (\<forall>x\<in>set (fst (classification_phase (classify_reply d) (essay_files d))).
          filename x \<noteq> file_name f)
    \<and> (\<forall>x\<in>set (sorted_essays d). filename x \<noteq> file_name f)"
proof -
  have a: "ollama_classify_score (classify_reply d (file_name f)) txt
           = (''Error'', None, failure_message (classify_reply d (file_name f)))"
    using assms by (rule call_failed_classify)
  have b: "classify_step (classify_reply d) st f = st"
    by (simp add: classify_step_append [of _ st f] classified_failed [of "classify_reply d" f, OF assms])
  have c: "classification_phase (classify_reply d) (before @ f # after)
         = classification_phase (classify_reply d) (before @ after)"
    by (simp add: classification_phase_concat classified_failed [of "classify_reply d" f, OF assms])
  have d: "\<forall>x\<in>set (fst (classification_phase (classify_reply d) (essay_files d))).
          filename x \<noteq> file_name f"
  proof
    fix x assume "x \<in> set (fst (classification_phase (classify_reply d) (essay_files d)))"
    then obtain g where g: "x \<in> set (fst (classified (classify_reply d) g))"
      by (auto simp: classification_phase_concat)
    from classified_filename [OF g]
    have "filename x = file_name g"
      and "fst (ollama_classify_score (classify_reply d (file_name g))
                  (read_file_content (file_read g))) \<noteq> ''Error''"
      by blast+
    with call_failed_classify [OF assms, of "read_file_content (file_read g)"]
    show "filename x \<noteq> file_name f" by auto
  qed
  have e: "\<forall>x\<in>set (sorted_essays d). filename x \<noteq> file_name f"
  proof
    fix x assume "x \<in> set (sorted_essays d)"
    then have "filename x \<in> set (map filename (process_essay_folder_with_quick_analysis d))"
      by (simp add: sorted_essays_def)
    with process_filenames [of d]
    obtain y where "y \<in> set (fst (classification_phase (classify_reply d) (essay_files d)))"
      "filename y = filename x" by auto
    with d show "filename x \<noteq> file_name f" by auto
  qed
  from a b c d e show ?thesis by blast
qed

lemma north_included:
  "fst (classification_phase (classify_reply zone_north) (essay_files zone_north))
   = [\<lparr> filename = ''a2.txt'', filepath = ''north/a2.txt'',
         essay_content = ''Nehru spoke at the Red Fort.'', basic_score = Some 3 \<rparr>]"
  by (simp add: zone_north_def pipeline_eval classify_eval)

lemma west_included:
  "fst (classification_phase (classify_reply zone_west) (essay_files zone_west))
   = [\<lparr> filename = ''a1.txt'', filepath = ''north/a1.txt'',
         essay_content = ''Gandhi hoisted the TIRANGA.'', basic_score = Some 3 \<rparr>]"
  by (simp add: zone_west_def pipeline_eval classify_eval)

text \<open>In the zone \<open>zone_north\<close> the classification call for \<open>a1.txt\<close> times out:
  the file is left out and the next one, \<open>a2.txt\<close>, is classified, scored and ranked.\<close>

theorem timed_out_classification_in_zone_north:
  "ollama_classify_score (classify_reply zone_north (file_name file_a1))
      ''Gandhi hoisted the TIRANGA.'' = (''Error'', None, ''timed out'')
   \<and> ''a1.txt'' \<notin> filename ` set (sorted_essays zone_north)
   \<and> ''a2.txt'' \<in> filename ` set (sorted_essays zone_north)"
proof -
  have r: "classify_reply zone_north (file_name file_a1) = Raised ''timed out''"
    by (simp add: zone_north_def file_a1_def)
  have f: "call_failed (classify_reply zone_north (file_name file_a1))"
    by (simp only: r) (simp add: call_failed_def)
  have m: "failure_message (classify_reply zone_north ''a1.txt'') = ''timed out''"
    by (simp add: zone_north_def failure_message_def)
  have n: "file_name file_a1 = ''a1.txt''" by (simp add: file_a1_def)
  note t = failed_classification_excludes_the_item_and_the_run_goes_on
             [OF f, of "''Gandhi hoisted the TIRANGA.''" "([], [])" "[]" "[file_a2]"]
  have d: "folder_exists zone_north" "ollama_connection zone_north"
    by (simp_all add: zone_north_def)
  have "''a2.txt'' \<in> filename ` set (sorted_essays zone_north)"
    by (simp add: sorted_essays_set [OF d] north_included)
  moreover from t [unfolded n, THEN conjunct2, THEN conjunct2, THEN conjunct2, THEN conjunct2]
  have "''a1.txt'' \<notin> filename ` set (sorted_essays zone_north)" by auto
  moreover note t [unfolded n, THEN conjunct1, unfolded m]
  ultimately show ?thesis by (simp add: n)
qed

text \<open>
  C9, as stated, fails when the failure is a protocol error of the kind "answer without
  the \<open>response\<close> field": in the zone \<open>zone_west\<close> such an answer is read as an empty
  text, the keyword fallback makes the verdict \<open>Yes\<close> with the default score 3.0, and the
  essay is scored and ranked.
\<close>

theorem answer_without_response_field_is_classified:
  "transport_or_protocol_error (classify_reply zone_west (file_name file_a1))
   \<and> ollama_classify_score (classify_reply zone_west (file_name file_a1))
        ''Gandhi hoisted the TIRANGA.'' = (''Yes'', Some 3, [])
   \<and> file_name file_a1 \<in> filename ` set (sorted_essays zone_west)"
proof -
  have r: "classify_reply zone_west (file_name file_a1) = Http 200 None"
    by (simp add: zone_west_def)
  have a: "transport_or_protocol_error (Http 200 None)"
    by (simp add: transport_or_protocol_error_def)
  have b: "ollama_classify_score (Http 200 None) ''Gandhi hoisted the TIRANGA.''
           = (''Yes'', Some 3, [])"
    by (simp add: classify_eval)
  have d: "folder_exists zone_west" "ollama_connection zone_west"
    by (simp_all add: zone_west_def)
  have c: "file_name file_a1 \<in> filename ` set (sorted_essays zone_west)"
    by (simp add: sorted_essays_set [OF d] west_included file_a1_def)
  show ?thesis unfolding r using a b c by blast
qed

section \<open>Properties of the competition between zones\<close>

lemma valid_zones_essays:
  "length names = length zones \<Longrightarrow>
   map snd (filter (\<lambda>(name, essays). essays \<noteq> []) (zip names zones))
   = filter (\<lambda>essays. essays \<noteq> []) zones"
  by (induction names zones rule: list_induct2) simp_all

lemma essay_loop_extends:
  "\<exists>t. foldl (essay_loop fmt zn) st es = (fst st @ t, snd st + length es)"
proof (induction es arbitrary: st)
  case Nil
  show ?case by (rule exI [of _ "[]"]) simp
next
  case (Cons x xs)
  from Cons.IH [of "essay_loop fmt zn st x"]
  obtain t where "foldl (essay_loop fmt zn) (essay_loop fmt zn st x) xs
      = (fst (essay_loop fmt zn st x) @ t, snd (essay_loop fmt zn st x) + length xs)" ..
  then have "foldl (essay_loop fmt zn) st (x # xs)
      = (fst st @ (essay_summary fmt zn (snd st + 1) x @ t), snd st + length (x # xs))"
    by (simp add: essay_loop_def Let_def)
  then show ?case by blast
qed

lemma essay_loop_holds:
  "e \<in> set es \<Longrightarrow>
   \<exists>k pre post. snd st < k \<and> k \<le> snd st + length es
     \<and> fst (foldl (essay_loop fmt zn) st es) = pre @ essay_summary fmt zn k e @ post"
proof (induction es arbitrary: st)
  case Nil
  then show ?case by simp
next
  case (Cons x xs)
  let ?st = "essay_loop fmt zn st x"
  have st': "?st = (fst st @ essay_summary fmt zn (snd st + 1) x, snd st + 1)"
    by (simp add: essay_loop_def Let_def)
  show ?case
  proof (cases "e = x")
    case True
    from essay_loop_extends [of fmt zn ?st xs]
    obtain t where "foldl (essay_loop fmt zn) ?st xs = (fst ?st @ t, snd ?st + length xs)" ..
    then have "fst (foldl (essay_loop fmt zn) st (x # xs))
        = fst st @ essay_summary fmt zn (snd st + 1) e @ t"
      by (simp add: st' True)
    moreover have "snd st < snd st + 1 \<and> snd st + 1 \<le> snd st + length (x # xs)" by simp
    ultimately show ?thesis by blast
  next
    case False
    with Cons.prems have "e \<in> set xs" by simp
    from Cons.IH [OF this, of ?st]
    obtain k pre post where "snd ?st < k" "k \<le> snd ?st + length xs"
      "fst (foldl (essay_loop fmt zn) ?st xs) = pre @ essay_summary fmt zn k e @ post"
      by blast
    then have "snd st < k \<and> k \<le> snd st + length (x # xs)
      \<and> fst (foldl (essay_loop fmt zn) st (x # xs)) = pre @ essay_summary fmt zn k e @ post"
      by (simp add: st')
    then show ?thesis by blast
  qed
qed

lemma zone_loop_extends:
  "\<exists>t. zone_loop fmt st zone = (fst st @ t, snd st + length zone)"
proof (cases zone)
  case Nil
  show ?thesis by (rule exI [of _ "[]"]) (simp add: zone_loop_def Nil)
next
  case (Cons first rest)
  let ?st = "(fst st @ ''\<newline>=== '' @ top_zone first @ '' Top Essays ===\<newline>'', snd st)"
  from essay_loop_extends [of fmt "top_zone first" ?st zone]
  obtain t where "foldl (essay_loop fmt (top_zone first)) ?st zone
      = (fst ?st @ t, snd ?st + length zone)" ..
  then have "zone_loop fmt st zone
      = (fst st @ (''\<newline>=== '' @ top_zone first @ '' Top Essays ===\<newline>'' @ t),
         snd st + length zone)"
    by (simp add: zone_loop_def Cons Let_def)
  then show ?thesis by blast
qed

lemma zone_loop_holds:
  assumes "e \<in> set zone"
  shows "\<exists>k pre post. snd st < k \<and> k \<le> snd st + length zone
     \<and> fst (zone_loop fmt st zone) = pre @ essay_summary fmt (top_zone (hd zone)) k e @ post"
proof (cases zone)
  case Nil
  with assms show ?thesis by simp
next
  case (Cons first rest)
  let ?st = "(fst st @ ''\<newline>=== '' @ top_zone first @ '' Top Essays ===\<newline>'', snd st)"
  from essay_loop_holds [OF assms, of ?st fmt "top_zone first"]
  obtain k pre post where "snd ?st < k" "k \<le> snd ?st + length zone"
    "fst (foldl (essay_loop fmt (top_zone first)) ?st zone)
       = pre @ essay_summary fmt (top_zone first) k e @ post"
    by blast
  then have "snd st < k \<and> k \<le> snd st + length zone
     \<and> fst (zone_loop fmt st zone) = pre @ essay_summary fmt (top_zone (hd zone)) k e @ post"
    by (simp add: zone_loop_def Cons Let_def)
  then show ?thesis by blast
qed

lemma zones_loop_extends:
  "\<exists>t. foldl (zone_loop fmt) st zones = (fst st @ t, snd st + length (concat zones))"
proof (induction zones arbitrary: st)
  case Nil
  show ?case by (rule exI [of _ "[]"]) simp
next
  case (Cons z zs)
  from zone_loop_extends [of fmt st z]
  obtain t1 where t1: "zone_loop fmt st z = (fst st @ t1, snd st + length z)" ..
  from Cons.IH [of "zone_loop fmt st z"]
  obtain t2 where "foldl (zone_loop fmt) (zone_loop fmt st z) zs
      = (fst (zone_loop fmt st z) @ t2, snd (zone_loop fmt st z) + length (concat zs))" ..
  then have "foldl (zone_loop fmt) st (z # zs)
      = (fst st @ (t1 @ t2), snd st + length (concat (z # zs)))"
    by (simp add: t1)
  then show ?case by blast
qed

lemma zones_loop_holds:
  "zone \<in> set zones \<Longrightarrow> e \<in> set zone \<Longrightarrow>
   \<exists>k pre post. snd st < k \<and> k \<le> snd st + length (concat zones)
     \<and> fst (foldl (zone_loop fmt) st zones)
         = pre @ essay_summary fmt (top_zone (hd zone)) k e @ post"
proof (induction zones arbitrary: st)
  case Nil
  then show ?case by simp
next
  case (Cons z zs)
  from zone_loop_extends [of fmt st z]
  obtain t1 where t1: "zone_loop fmt st z = (fst st @ t1, snd st + length z)" ..
  show ?case
  proof (cases "zone = z")
    case True
    from zone_loop_holds [of e z st fmt] Cons.prems(2) True
    obtain k pre post where k: "snd st < k" "k \<le> snd st + length z"
      "fst (zone_loop fmt st z) = pre @ essay_summary fmt (top_zone (hd zone)) k e @ post"
      by blast
    from zones_loop_extends [of fmt "zone_loop fmt st z" zs]
    obtain t2 where "foldl (zone_loop fmt) (zone_loop fmt st z) zs
      = (fst (zone_loop fmt st z) @ t2, snd (zone_loop fmt st z) + length (concat zs))" ..
    with k have "snd st < k \<and> k \<le> snd st + length (concat (z # zs))
      \<and> fst (foldl (zone_loop fmt) st (z # zs))
          = pre @ essay_summary fmt (top_zone (hd zone)) k e @ (post @ t2)"
      by simp
    then show ?thesis by blast
  next
    case False
    with Cons.prems have "zone \<in> set zs" by simp
    from Cons.IH [OF this Cons.prems(2), of "zone_loop fmt st z"]
    obtain k pre post where "snd (zone_loop fmt st z) < k"
      "k \<le> snd (zone_loop fmt st z) + length (concat zs)"
      "fst (foldl (zone_loop fmt) (zone_loop fmt st z) zs)
         = pre @ essay_summary fmt (top_zone (hd zone)) k e @ post"
      by blast
    then have "snd st < k \<and> k \<le> snd st + length (concat (z # zs))
      \<and> fst (foldl (zone_loop fmt) st (z # zs))
          = pre @ essay_summary fmt (top_zone (hd zone)) k e @ post"
      by (simp add: t1)
    then show ?thesis by blast
  qed
qed

lemma combined_summary_holds:
  assumes "zone \<in> set zones" "e \<in> set zone"
  shows "\<exists>k. 1 \<le> k \<and> k \<le> length (concat zones)
     \<and> contains (combined_summary fmt zones) (essay_summary fmt (top_zone (hd zone)) k e)"
proof -
  from zones_loop_holds [OF assms, of "([], 0)" fmt]
  obtain k pre post where "0 < k" "k \<le> length (concat zones)"
    "fst (foldl (zone_loop fmt) ([], 0) zones)
       = pre @ essay_summary fmt (top_zone (hd zone)) k e @ post"
    by auto
  then have "1 \<le> k \<and> k \<le> length (concat zones)
     \<and> contains (combined_summary fmt zones) (essay_summary fmt (top_zone (hd zone)) k e)"
    unfolding contains_iff combined_summary_def by auto
  then show ?thesis ..
qed

lemma valid_zones_length:
  "length names = length zones \<Longrightarrow>
   length (filter (\<lambda>(name, essays). essays \<noteq> []) (zip names zones))
   = length (filter (\<lambda>essays. essays \<noteq> []) zones)"
  using valid_zones_essays [of names zones]
  by (metis length_map)

lemma sample_zones_processed:
  "process_essay_folder_with_quick_analysis zone_north \<noteq> []"
  "process_essay_folder_with_quick_analysis zone_south \<noteq> []"
  "process_essay_folder_with_quick_analysis zone_empty = []"
proof -
  have n: "folder_exists zone_north" "ollama_connection zone_north"
    by (simp_all add: zone_north_def)
  have s: "folder_exists zone_south" "ollama_connection zone_south"
    by (simp_all add: zone_south_def)
  show "process_essay_folder_with_quick_analysis zone_north \<noteq> []"
    by (simp add: process_phases [OF n] analysis_phase_map north_included)
  show "process_essay_folder_with_quick_analysis zone_south \<noteq> []"
    by (simp add: process_phases [OF s] analysis_phase_map south_included)
  show "process_essay_folder_with_quick_analysis zone_empty = []"
    by (simp add: process_essay_folder_with_quick_analysis_def zone_empty_def)
qed

lemma sample_zones_exist:
  "folder_exists zone_north" "folder_exists zone_south" "folder_exists zone_empty"
  by (simp_all add: zone_north_def zone_south_def zone_empty_def)

lemma foldl_zone_step:
  "zone_names (foldl zone_step st zs)
     = zone_names st @ map zone_name (filter (\<lambda>z. folder_exists (zone_folder z)) zs)"
  "all_zone_essays (foldl zone_step st zs)
     = all_zone_essays st @ map zone_top_essays (filter (\<lambda>z. folder_exists (zone_folder z)) zs)"
  "zone_reports (foldl zone_step st zs)
     = zone_reports st @ map (\<lambda>z. (zone_name z, sorted_essays (zone_folder z)))
                           (filter (\<lambda>z. folder_exists (zone_folder z)) zs)"
  by (induction zs arbitrary: st) (simp_all add: zone_step_def zone_top_essays_def)

lemma multi_zone_competition_cases:
  assumes "2 \<le> n"
  shows "multi_zone_competition fmt (Some n) setups grand_reply =
    Inr (if length (surviving_zones n setups) < 2
         then \<lparr> message = Some ''Need at least 2 zones with valid essays for comparison!'',
                zone_rankings = map (\<lambda>z. (zone_name z, sorted_essays (zone_folder z)))
                                  (processed_zones n setups),
                grand_summary = None, grand_result = None \<rparr>
         else \<lparr> message = None,
                zone_rankings = map (\<lambda>z. (zone_name z, sorted_essays (zone_folder z)))
                                  (processed_zones n setups),
                grand_summary = Some (combined_summary fmt (surviving_zones n setups)),
                grand_result = Some (compare_zones_top_essays grand_reply) \<rparr>)"
proof -
  let ?ex = "processed_zones n setups"
  let ?st = "foldl zone_step \<lparr> zone_names = [], all_zone_essays = [], zone_reports = [] \<rparr>
               (map setups [0..<nat n])"
  have st: "zone_names ?st = map zone_name ?ex" "all_zone_essays ?st = map zone_top_essays ?ex"
    "zone_reports ?st = map (\<lambda>z. (zone_name z, sorted_essays (zone_folder z))) ?ex"
    by (simp_all add: foldl_zone_step processed_zones_def)
  have len: "length (map zone_name ?ex) = length (map zone_top_essays ?ex)" by simp
  note a = valid_zones_essays [OF len] valid_zones_length [OF len]
  from assms have n: "\<not> n < 2" by simp
  show ?thesis
    unfolding multi_zone_competition_def
    by (simp add: n st a Let_def surviving_zones_def)
qed

lemma zone_top_essays_eq:
  "zone_top_essays z
   = map (top_entry (zone_name z) (sorted_essays (zone_folder z)))
       [0..<min 3 (length (sorted_essays (zone_folder z)))]"
  by (simp add: zone_top_essays_def process_single_zone_for_multi_def sorted_essays_def
        rank_essays_def py_sorted_reverse_def Let_def)

lemma zone_top_essays_empty:
  "zone_top_essays z = [] \<longleftrightarrow> sorted_essays (zone_folder z) = []"
  by (cases "sorted_essays (zone_folder z)") (simp_all add: zone_top_essays_eq)

lemma surviving_zones_eq:
  "surviving_zones n setups
   = map zone_top_essays
       (filter (\<lambda>z. sorted_essays (zone_folder z) \<noteq> []) (processed_zones n setups))"
  by (simp add: surviving_zones_def filter_map comp_def zone_top_essays_empty)

lemma concat_nonempty: "concat (filter (\<lambda>xs. xs \<noteq> []) xss) = concat xss"
  by (induction xss) simp_all

lemma surviving_zones_total:
  "length (concat (surviving_zones n setups))
   = sum_list (map (\<lambda>z. min 3 (length (sorted_essays (zone_folder z))))
                (processed_zones n setups))"
  by (simp add: surviving_zones_def concat_nonempty length_concat comp_def zone_top_essays_eq)

lemma zone_entry_text:
  assumes "i < min 3 (length r)"
  shows "essay_summary fmt zn k (top_entry zn r i)
   = ''\<newline>Essay '' @ str_nat k @ '': '' @ filename (r ! i) @ '' (from '' @ zn @ '')\<newline>''
     @ ''Zone Rank: #'' @ str_nat (i + 1) @ '', Zone Score: ''
       @ fmt (overall_score (analysis (r ! i))) @ ''/10\<newline>''
     @ ''Strengths: '' @ strengths (analysis (r ! i)) @ ''\<newline>''
     @ ''Content Preview: '' @ take 400 (essay_content (r ! i)) @ ''...\<newline>''"
  by (simp add: essay_summary_def top_entry_def Let_def)

lemma zone_entry_in_summary:
  assumes z: "z \<in> set (processed_zones n setups)"
    and i: "i < min 3 (length (sorted_essays (zone_folder z)))"
  shows "\<exists>k. 1 \<le> k
     \<and> k \<le> sum_list (map (\<lambda>z. min 3 (length (sorted_essays (zone_folder z))))
                     (processed_zones n setups))
     \<and> contains (combined_summary fmt (surviving_zones n setups))
         (''\<newline>Essay '' @ str_nat k @ '': '' @ filename (sorted_essays (zone_folder z) ! i)
            @ '' (from '' @ zone_name z @ '')\<newline>''
          @ ''Zone Rank: #'' @ str_nat (i + 1) @ '', Zone Score: ''
            @ fmt (overall_score (analysis (sorted_essays (zone_folder z) ! i))) @ ''/10\<newline>''
          @ ''Strengths: '' @ strengths (analysis (sorted_essays (zone_folder z) ! i)) @ ''\<newline>''
          @ ''Content Preview: '' @ take 400 (essay_content (sorted_essays (zone_folder z) ! i))
            @ ''...\<newline>'')"
proof -
  let ?r = "sorted_essays (zone_folder z)"
  let ?e = "top_entry (zone_name z) ?r i"
  from i have ne: "?r \<noteq> []" by auto
  with z have zone: "zone_top_essays z \<in> set (surviving_zones n setups)"
    by (simp add: surviving_zones_eq)
  from i have e: "?e \<in> set (zone_top_essays z)"
    by (simp add: zone_top_essays_eq)
  from ne have "hd (zone_top_essays z) = top_entry (zone_name z) ?r 0"
    by (simp add: zone_top_essays_eq upt_rec [of 0] del: upt.simps)
  then have hd: "top_zone (hd (zone_top_essays z)) = zone_name z"
    by (simp add: top_entry_def Let_def)
  from combined_summary_holds [OF zone e, of fmt]
  obtain k where "1 \<le> k" "k \<le> length (concat (surviving_zones n setups))"
    "contains (combined_summary fmt (surviving_zones n setups))
       (essay_summary fmt (zone_name z) k ?e)"
    unfolding hd by blast
  then show ?thesis
    unfolding surviving_zones_total zone_entry_text [OF i] by blast
qed


lemma surviving_zones_length:
  "length (surviving_zones n setups)
   = length (filter (\<lambda>z. sorted_essays (zone_folder z) \<noteq> []) (processed_zones n setups))"
  by (simp add: surviving_zones_eq)

text \<open>
  C8. A run over at least two zones returns; it does not end with an exception. Every
  zone whose folder exists has left its report behind, whether the comparison takes
  place or not. The zones without a ranked essay are dropped. When fewer than two are
  left, the run ends with the message that two zones with valid essays are needed, and
  there is neither a summary nor a grand result. When two or more are left, the
  comparison is made and its result recorded, and in the summary put into the prompt
  each of the first three essays of the ranking of every zone has its entry: a number
  from 1 to the number of all these essays, the file name, the name of the zone, the rank
  in the zone, the score, the strengths and the first 400 characters of the essay.
\<close>

theorem too_few_valid_zones_end_the_run_with_a_message_and_others_are_compared:
  assumes "2 \<le> n"
  shows "\<exists>c. multi_zone_competition fmt (Some n) setups grand_reply = Inr c
    \<and> zone_rankings c
        = map (\<lambda>z. (zone_name z, sorted_essays (zone_folder z))) (processed_zones n setups)
    \<and> (length (filter (\<lambda>z. sorted_essays (zone_folder z) \<noteq> []) (processed_zones n setups)) < 2
        \<longrightarrow> message c = Some ''Need at least 2 zones with valid essays for comparison!''
          \<and> grand_summary c = None \<and> grand_result c = None)
    \<and> (2 \<le> length (filter (\<lambda>z. sorted_essays (zone_folder z) \<noteq> []) (processed_zones n setups))
        \<longrightarrow> message c = None
          \<and> grand_result c = Some (compare_zones_top_essays grand_reply)
          \<and> (\<exists>summary. grand_summary c = Some summary
               \<and> (\<forall>z\<in>set (processed_zones n setups).
                    \<forall>i<min 3 (length (sorted_essays (zone_folder z))).
                      \<exists>k. 1 \<le> k
                        \<and> k \<le> sum_list (map (\<lambda>z. min 3 (length (sorted_essays (zone_folder z))))
                                         (processed_zones n setups))
                        \<and> contains summary
                            (''\<newline>Essay '' @ str_nat k @ '': ''
                               @ filename (sorted_essays (zone_folder z) ! i)
                               @ '' (from '' @ zone_name z @ '')\<newline>''
                             @ ''Zone Rank: #'' @ str_nat (i + 1) @ '', Zone Score: ''
                               @ fmt (overall_score (analysis (sorted_essays (zone_folder z) ! i)))
                               @ ''/10\<newline>''
                             @ ''Strengths: ''
                               @ strengths (analysis (sorted_essays (zone_folder z) ! i))
                               @ ''\<newline>''
                             @ ''Content Preview: ''
                               @ take 400 (essay_content (sorted_essays (zone_folder z) ! i))
                               @ ''...\<newline>''))))"
proof (cases "length (surviving_zones n setups) < 2")
  case True
  with multi_zone_competition_cases [OF assms, of fmt setups grand_reply]
  show ?thesis by (simp add: surviving_zones_length)
next
  case False
  with multi_zone_competition_cases [OF assms, of fmt setups grand_reply]
  have run: "multi_zone_competition fmt (Some n) setups grand_reply
    = Inr \<lparr> message = None,
            zone_rankings = map (\<lambda>z. (zone_name z, sorted_essays (zone_folder z)))
                              (processed_zones n setups),
            grand_summary = Some (combined_summary fmt (surviving_zones n setups)),
            grand_result = Some (compare_zones_top_essays grand_reply) \<rparr>"
    by simp
  from False have two: "\<not> length (filter (\<lambda>z. sorted_essays (zone_folder z) \<noteq> [])
                                   (processed_zones n setups)) < 2"
    by (simp add: surviving_zones_length)
  show ?thesis
    unfolding run using two zone_entry_in_summary [of _ n setups _ fmt] by simp
qed

lemma sorted_essays_empty:
  "sorted_essays d = [] \<longleftrightarrow> process_essay_folder_with_quick_analysis d = []"
proof -
  have "length (sorted_essays d) = length (process_essay_folder_with_quick_analysis d)"
    by (simp add: sorted_essays_def)
  then show ?thesis by (metis length_0_conv)
qed

lemma sample_zones_ranked:
  "sorted_essays zone_north \<noteq> []" "sorted_essays zone_south \<noteq> []"
  "sorted_essays zone_empty = []"
  by (simp_all add: sorted_essays_empty sample_zones_processed)

lemma sample_processed_zones:
  "processed_zones 2 two_full_zones
   = [\<lparr> zone_folder = zone_north, zone_name = ''North'' \<rparr>,
      \<lparr> zone_folder = zone_south, zone_name = ''South'' \<rparr>]"
  "processed_zones 2 one_full_zone
   = [\<lparr> zone_folder = zone_north, zone_name = ''North'' \<rparr>,
      \<lparr> zone_folder = zone_empty, zone_name = ''Nowhere'' \<rparr>]"
proof -
  have u: "[0..<nat 2] = [0, 1]" "[0..<2] = [0, 1]" by (simp_all add: upt_rec)
  show "processed_zones 2 two_full_zones
   = [\<lparr> zone_folder = zone_north, zone_name = ''North'' \<rparr>,
      \<lparr> zone_folder = zone_south, zone_name = ''South'' \<rparr>]"
    by (simp add: processed_zones_def u two_full_zones_def sample_zones_exist)
  show "processed_zones 2 one_full_zone
   = [\<lparr> zone_folder = zone_north, zone_name = ''North'' \<rparr>,
      \<lparr> zone_folder = zone_empty, zone_name = ''Nowhere'' \<rparr>]"
    by (simp add: processed_zones_def u one_full_zone_def sample_zones_exist)
qed

lemma north_report:
  "score_report (Http 200 (Some ''Relevance: 9''))
   = \<lparr> relevance = 9, content = 6, writing = 6, original = 6, impact = 6,
       overall_score = 33 / 5, strengths = ''Good Independence Day essay'',
       topics = ''Independence Day themes'', grade = ''B'',
       raw_output = Some ''Relevance: 9'' \<rparr>"
  by (simp add: score_report_def parse_analysis_def rating_labels_def rating_def
        assign_grade_def text_eval)

lemma north_ranking:
  "sorted_essays zone_north
   = [with_analysis
        \<lparr> filename = ''a2.txt'', filepath = ''north/a2.txt'',
          essay_content = ''Nehru spoke at the Red Fort.'', basic_score = Some 3 \<rparr>
        (score_report (Http 200 (Some ''Relevance: 9'')))]"
proof -
  have n: "folder_exists zone_north" "ollama_connection zone_north"
    by (simp_all add: zone_north_def)
  have "analysis_reply zone_north ''a2.txt'' = Http 200 (Some ''Relevance: 9'')"
    by (simp add: zone_north_def)
  then show ?thesis
    by (simp add: sorted_essays_def process_phases [OF n] analysis_phase_map north_included
          rank_essays_def py_sorted_reverse_def)
qed

lemma one_decimal_sample: "one_decimal (33 / 5) = ''6.6''"
proof -
  have "\<lfloor>33 / 5 :: rat\<rfloor> = 6" by (simp add: floor_eq_iff)
  moreover have "\<lfloor>10 * (33 / 5) :: rat\<rfloor> mod 10 = 6" by simp
  moreover have "str_nat 6 = ''6''"
    by (simp add: str_nat.simps [of 6] digit_ch_def char_of_def bit_Suc_0_iff bit_1_iff)
  ultimately show ?thesis
    by (simp add: one_decimal_def str_int_def)
qed

lemma contains_tail: "contains s (p @ q) \<Longrightarrow> contains s q"
  unfolding contains_iff by (metis append.assoc)

text \<open>A run over \<open>zone_north\<close> and a zone without essays: no exception of the class
  \<open>InsufficientZonesError\<close> leaves the function; it returns, after the message.\<close>

theorem one_valid_zone_ends_with_a_message_not_an_exception:
  "multi_zone_competition one_decimal (Some 2) one_full_zone (Http 200 (Some ''North wins''))
     \<noteq> Inl ''InsufficientZonesError''
   \<and> message (projr (multi_zone_competition one_decimal (Some 2) one_full_zone
                       (Http 200 (Some ''North wins''))))
       = Some ''Need at least 2 zones with valid essays for comparison!''
   \<and> grand_result (projr (multi_zone_competition one_decimal (Some 2) one_full_zone
                            (Http 200 (Some ''North wins'')))) = None"
proof -
  have two: "(2::int) \<le> 2" by simp
  have "length (surviving_zones 2 one_full_zone) = 1"
    by (simp add: surviving_zones_length sample_processed_zones sample_zones_ranked)
  then show ?thesis
    by (simp add: multi_zone_competition_cases [OF two])
qed

text \<open>Two sample runs over two zones. With \<open>zone_north\<close> and \<open>zone_south\<close> the
  comparison is made, and the summary holds the entry of \<open>a2.txt\<close>, the first essay of
  the zone North, with its score 6.6. With \<open>zone_north\<close> and a zone without essays the run
  ends with the message, and the report of North still lists \<open>a2.txt\<close>.\<close>

theorem two_zones_compared_and_one_zone_stopped:
  "(\<exists>c. multi_zone_competition one_decimal (Some 2) two_full_zones
           (Http 200 (Some ''North wins'')) = Inr c
       \<and> message c = None \<and> grand_result c = Some ''North wins''
       \<and> contains (the (grand_summary c))
           ('': a2.txt (from North)\<newline>Zone Rank: #1, Zone Score: 6.6/10\<newline>''
            @ ''Strengths: Good Independence Day essay\<newline>''
            @ ''Content Preview: Nehru spoke at the Red Fort....\<newline>''))
   \<and> (\<exists>c. multi_zone_competition one_decimal (Some 2) one_full_zone
           (Http 200 (Some ''North wins'')) = Inr c
       \<and> message c = Some ''Need at least 2 zones with valid essays for comparison!''
       \<and> grand_summary c = None \<and> grand_result c = None
       \<and> map (\<lambda>(name, ranking). (name, map filename ranking)) (zone_rankings c)
           = [(''North'', [''a2.txt'']), (''Nowhere'', [])])"
proof -
  have two: "(2::int) \<le> 2" by simp
  let ?north = "\<lparr> zone_folder = zone_north, zone_name = ''North'' \<rparr>"
  from too_few_valid_zones_end_the_run_with_a_message_and_others_are_compared
         [OF two, of one_decimal two_full_zones "Http 200 (Some ''North wins'')"]
  obtain c where c: "multi_zone_competition one_decimal (Some 2) two_full_zones
           (Http 200 (Some ''North wins'')) = Inr c"
    and full: "2 \<le> length (filter (\<lambda>z. sorted_essays (zone_folder z) \<noteq> [])
                              (processed_zones 2 two_full_zones))
        \<longrightarrow> message c = None
          \<and> grand_result c = Some (compare_zones_top_essays (Http 200 (Some ''North wins'')))
          \<and> (\<exists>summary. grand_summary c = Some summary
               \<and> (\<forall>z\<in>set (processed_zones 2 two_full_zones).
                    \<forall>i<min 3 (length (sorted_essays (zone_folder z))).
                      \<exists>k. 1 \<le> k
                        \<and> k \<le> sum_list (map (\<lambda>z. min 3 (length (sorted_essays (zone_folder z))))
                                         (processed_zones 2 two_full_zones))
                        \<and> contains summary
                            (''\<newline>Essay '' @ str_nat k @ '': ''
                               @ filename (sorted_essays (zone_folder z) ! i)
                               @ '' (from '' @ zone_name z @ '')\<newline>''
                             @ ''Zone Rank: #'' @ str_nat (i + 1) @ '', Zone Score: ''
                               @ one_decimal (overall_score (analysis (sorted_essays (zone_folder z) ! i)))
                               @ ''/10\<newline>''
                             @ ''Strengths: ''
                               @ strengths (analysis (sorted_essays (zone_folder z) ! i))
                               @ ''\<newline>''
                             @ ''Content Preview: ''
                               @ take 400 (essay_content (sorted_essays (zone_folder z) ! i))
                               @ ''...\<newline>'')))"
    by blast
  have a: "2 \<le> length (filter (\<lambda>z. sorted_essays (zone_folder z) \<noteq> [])
                              (processed_zones 2 two_full_zones))"
    by (simp add: sample_processed_zones sample_zones_ranked)
  from full a obtain summary where f: "message c = None"
    "grand_result c = Some (compare_zones_top_essays (Http 200 (Some ''North wins'')))"
    "grand_summary c = Some summary"
    and entries: "\<forall>z\<in>set (processed_zones 2 two_full_zones).
                    \<forall>i<min 3 (length (sorted_essays (zone_folder z))).
                      \<exists>k. 1 \<le> k
                        \<and> k \<le> sum_list (map (\<lambda>z. min 3 (length (sorted_essays (zone_folder z))))
                                         (processed_zones 2 two_full_zones))
                        \<and> contains summary
                            (''\<newline>Essay '' @ str_nat k @ '': ''
                               @ filename (sorted_essays (zone_folder z) ! i)
                               @ '' (from '' @ zone_name z @ '')\<newline>''
                             @ ''Zone Rank: #'' @ str_nat (i + 1) @ '', Zone Score: ''
                               @ one_decimal (overall_score (analysis (sorted_essays (zone_folder z) ! i)))
                               @ ''/10\<newline>''
                             @ ''Strengths: ''
                               @ strengths (analysis (sorted_essays (zone_folder z) ! i))
                               @ ''\<newline>''
                             @ ''Content Preview: ''
                               @ take 400 (essay_content (sorted_essays (zone_folder z) ! i))
                               @ ''...\<newline>'')"
    by blast
  have "?north \<in> set (processed_zones 2 two_full_zones)"
    by (simp add: sample_processed_zones)
  moreover have "0 < min 3 (length (sorted_essays (zone_folder ?north)))"
    by (simp add: north_ranking)
  ultimately obtain k where
    "contains summary
       (''\<newline>Essay '' @ str_nat k @ '': ''
          @ filename (sorted_essays (zone_folder ?north) ! 0)
          @ '' (from '' @ zone_name ?north @ '')\<newline>''
        @ ''Zone Rank: #'' @ str_nat (0 + 1) @ '', Zone Score: ''
          @ one_decimal (overall_score (analysis (sorted_essays (zone_folder ?north) ! 0)))
          @ ''/10\<newline>''
        @ ''Strengths: ''
          @ strengths (analysis (sorted_essays (zone_folder ?north) ! 0))
          @ ''\<newline>''
        @ ''Content Preview: ''
          @ take 400 (essay_content (sorted_essays (zone_folder ?north) ! 0))
          @ ''...\<newline>'')"
    using entries by blast
  then have "contains summary
       ((''\<newline>Essay '' @ str_nat k)
        @ ('': a2.txt (from North)\<newline>Zone Rank: #1, Zone Score: 6.6/10\<newline>''
            @ ''Strengths: Good Independence Day essay\<newline>''
            @ ''Content Preview: Nehru spoke at the Red Fort....\<newline>''))"
    by (simp add: north_ranking north_report one_decimal_sample str_nat.simps [of "Suc 0"]
          digit_ch_def char_of_def bit_Suc_0_iff bit_1_iff)
  then have "contains summary
        ('': a2.txt (from North)\<newline>Zone Rank: #1, Zone Score: 6.6/10\<newline>''
            @ ''Strengths: Good Independence Day essay\<newline>''
            @ ''Content Preview: Nehru spoke at the Red Fort....\<newline>'')"
    by (rule contains_tail)
  with c f have first: "\<exists>c. multi_zone_competition one_decimal (Some 2) two_full_zones
           (Http 200 (Some ''North wins'')) = Inr c
       \<and> message c = None \<and> grand_result c = Some ''North wins''
       \<and> contains (the (grand_summary c))
           ('': a2.txt (from North)\<newline>Zone Rank: #1, Zone Score: 6.6/10\<newline>''
            @ ''Strengths: Good Independence Day essay\<newline>''
            @ ''Content Preview: Nehru spoke at the Red Fort....\<newline>'')"
    by simp
  from too_few_valid_zones_end_the_run_with_a_message_and_others_are_compared
         [OF two, of one_decimal one_full_zone "Http 200 (Some ''North wins'')"]
  obtain d where d: "multi_zone_competition one_decimal (Some 2) one_full_zone
           (Http 200 (Some ''North wins'')) = Inr d"
    and rk: "zone_rankings d
        = map (\<lambda>z. (zone_name z, sorted_essays (zone_folder z))) (processed_zones 2 one_full_zone)"
    and part: "length (filter (\<lambda>z. sorted_essays (zone_folder z) \<noteq> [])
                          (processed_zones 2 one_full_zone)) < 2
        \<longrightarrow> message d = Some ''Need at least 2 zones with valid essays for comparison!''
          \<and> grand_summary d = None \<and> grand_result d = None"
    by blast
  have b: "length (filter (\<lambda>z. sorted_essays (zone_folder z) \<noteq> [])
                          (processed_zones 2 one_full_zone)) < 2"
    by (simp add: sample_processed_zones sample_zones_ranked)
  have "map (\<lambda>(name, ranking). (name, map filename ranking)) (zone_rankings d)
           = [(''North'', [''a2.txt'']), (''Nowhere'', [])]"
    by (simp add: rk sample_processed_zones sample_zones_ranked north_ranking with_analysis_def)
  with d part b have second: "\<exists>c. multi_zone_competition one_decimal (Some 2) one_full_zone
           (Http 200 (Some ''North wins'')) = Inr c
       \<and> message c = Some ''Need at least 2 zones with valid essays for comparison!''
       \<and> grand_summary c = None \<and> grand_result c = None
       \<and> map (\<lambda>(name, ranking). (name, map filename ranking)) (zone_rankings c)
           = [(''North'', [''a2.txt'']), (''Nowhere'', [])]"
    by simp
  from first second show ?thesis by (rule conjI)
qed

section \<open>The score of the classifier\<close>

text \<open>The score is 3.0 when the pattern matches nowhere, and what is stored as
  \<open>basic_score\<close> changes neither the analyses nor the order of the ranking.\<close>

lemma score_of_default: "re_search match_score out = None \<Longrightarrow> score_of out = 3"
  by (simp add: score_of_def)

lemma insort_key_map:
  "insort_key k (g x) (map g xs) = map g (insort_key (\<lambda>y. k (g y)) x xs)"
  by (induction xs) simp_all

lemma sort_key_map:
  "sort_key k (map g xs) = map g (sort_key (\<lambda>y. k (g y)) xs)"
  by (induction xs) (simp_all add: insort_key_map)

lemma py_sorted_reverse_map:
  "py_sorted_reverse k (map g xs) = map g (py_sorted_reverse (\<lambda>y. k (g y)) xs)"
  by (simp add: py_sorted_reverse_def sort_key_map rev_map)

lemma basic_score_is_not_used:
  "map analysis (rank_essays (analysis_phase call (map (\<lambda>e. e\<lparr>basic_score := b e\<rparr>) es)))
   = map analysis (rank_essays (analysis_phase call es))
   \<and> map filename (rank_essays (analysis_phase call (map (\<lambda>e. e\<lparr>basic_score := b e\<rparr>) es)))
   = map filename (rank_essays (analysis_phase call es))"
proof -
  let ?A = "\<lambda>e. with_analysis e (score_report (call (filename e)))"
  let ?U = "\<lambda>e. e\<lparr>basic_score := b e\<rparr>"
  let ?K = "\<lambda>e. overall_score (score_report (call (filename e)))"
  have 1: "rank_essays (analysis_phase call (map ?U es))
           = map (\<lambda>e. ?A (?U e)) (py_sorted_reverse ?K es)"
    using py_sorted_reverse_map [where k = "\<lambda>x. overall_score (analysis x)"
            and g = "\<lambda>e. ?A (?U e)" and xs = es]
    by (simp add: rank_essays_def analysis_phase_map comp_def)
  have 2: "rank_essays (analysis_phase call es) = map ?A (py_sorted_reverse ?K es)"
    using py_sorted_reverse_map [where k = "\<lambda>x. overall_score (analysis x)"
            and g = ?A and xs = es]
    by (simp add: rank_essays_def analysis_phase_map)
  show ?thesis by (simp add: 1 2 comp_def)
qed

end
